theory Spec2Isabelle
  imports
    Complex_Main
    "HOL-Library.Char_ord"
    "HOL-Library.List_Lexorder"
    "HOL-Library.Product_Lexorder"
    "HOL-Library.AList"
    "HOL-Library.Multiset"
begin


section \<open>Conventions of the embedding\<close>

text \<open>
  The service is TypeScript. A JavaScript \<open>number\<close> is modelled as an exact \<^typ>\<open>real\<close>
  (rounding of IEEE doubles is not modelled), except where the source only ever holds an
  integer in it (millisecond timestamps, page sizes), which is an \<^typ>\<open>int\<close> or a
  \<^typ>\<open>nat\<close>. An optional value (\<open>undefined\<close>) is an \<^typ>\<open>'a option\<close>.

  A string is a \<^typ>\<open>string\<close>, the list of its UTF-16 code units, each below 256: the
  model covers the strings of the Latin-1 range, and on those \<open>length\<close>, \<open>toLowerCase\<close>,
  \<open>trim\<close>, \<open>parseInt\<close>, \<open>split\<close> and the default order of \<open>sort\<close> are the ones of the
  language. Strings are ordered code unit by code unit (\<open>HOL-Library.List_Lexorder\<close> over
  \<open>HOL-Library.Char_ord\<close>).
\<close>

section \<open>String helpers of the JavaScript runtime\<close>

text \<open>
  \<open>toLowerCase\<close> on a code unit below 256: the capitals \<open>A\<close> to \<open>Z\<close> and the accented
  capitals U+00C0 to U+00DE (the multiplication sign U+00D7 apart) move up by 32.
\<close>

definition toLowerCase_char :: "char \<Rightarrow> char" where
  "toLowerCase_char c =
     (let n = (of_char c :: nat) in
      if (65 \<le> n \<and> n \<le> 90) \<or> (192 \<le> n \<and> n \<le> 222 \<and> n \<noteq> 215)
      then char_of (n + 32) else c)"

definition toLowerCase :: "string \<Rightarrow> string" where
  "toLowerCase s = map toLowerCase_char s"

fun startsWith :: "string \<Rightarrow> string \<Rightarrow> bool" where
  "startsWith s [] = True"
| "startsWith [] (k # ks) = False"
| "startsWith (x # xs) (k # ks) = (x = k \<and> startsWith xs ks)"

text \<open>\<open>s.includes(kw)\<close>: \<open>kw\<close> occurs in \<open>s\<close> as a contiguous substring.\<close>

fun includes_str :: "string \<Rightarrow> string \<Rightarrow> bool" where
  "includes_str [] kw = (kw = [])"
| "includes_str (x # xs) kw = (startsWith (x # xs) kw \<or> includes_str xs kw)"

text \<open>\<open>sep\<close>-separated pieces of a string, as \<open>s.split(sep)\<close> for a one-character separator.\<close>

fun split_on :: "char \<Rightarrow> string \<Rightarrow> string list" where
  "split_on c [] = [[]]"
| "split_on c (x # xs) =
     (if x = c then [] # split_on c xs
      else (let r = split_on c xs in (x # hd r) # tl r))"

fun join :: "string \<Rightarrow> string list \<Rightarrow> string" where
  "join sep [] = []"
| "join sep [x] = x"
| "join sep (x # y # ys) = x @ sep @ join sep (y # ys)"

text \<open>
  White space and line terminators of the language below 256: TAB, LF, VT, FF, CR, SP
  and the no-break space U+00A0. \<open>trim\<close> and \<open>parseInt\<close> skip them.
\<close>

definition isStrWhiteSpaceChar :: "char \<Rightarrow> bool" where
  "isStrWhiteSpaceChar c =
     (let n = (of_char c :: nat) in
      n = 9 \<or> n = 10 \<or> n = 11 \<or> n = 12 \<or> n = 13 \<or> n = 32 \<or> n = 160)"

definition trim :: "string \<Rightarrow> string" where
  "trim s = rev (dropWhile isStrWhiteSpaceChar (rev (dropWhile isStrWhiteSpaceChar s)))"

definition isDigit :: "char \<Rightarrow> bool" where
  "isDigit c = (let n = (of_char c :: nat) in 48 \<le> n \<and> n \<le> 57)"

definition digitValue :: "char \<Rightarrow> nat" where
  "digitValue c = of_char c - 48"

definition digitChar :: "nat \<Rightarrow> char" where
  "digitChar n = (''0123456789'' ! (n mod 10))"

text \<open>
  \<open>parseInt(s, 10)\<close>: leading white space is skipped, one sign is read, then the longest
  run of decimal digits; what follows the digits is ignored, and \<open>None\<close> is \<open>NaN\<close> (no
  digit there). The digits give the integer they denote. The language returns the
  nearest double, which is that integer up to \<open>2^53\<close>; the two uses of the handlers do
  not see the difference beyond, since a page size is cut at 1000 and a \<open>Date\<close> is
  invalid beyond \<open>8.64 * 10^15 < 2^53\<close> milliseconds.
\<close>

definition parseInt :: "string \<Rightarrow> int option" where
  "parseInt inputString =
     (let S = dropWhile isStrWhiteSpaceChar inputString;
          neg = (S \<noteq> [] \<and> hd S = CHR ''-'');
          S1 = (if S \<noteq> [] \<and> (hd S = CHR ''+'' \<or> hd S = CHR ''-'') then tl S else S);
          Z = takeWhile isDigit S1
      in if Z = [] then None
         else Some ((if neg then - 1 else 1) *
                    int (foldl (\<lambda>a c. 10 * a + digitValue c) 0 Z)))"

text \<open>The decimal text of an integer-valued number, as a template literal prints it.\<close>

fun show_nat :: "nat \<Rightarrow> string" where
  "show_nat n = (if n < 10 then [digitChar n] else show_nat (n div 10) @ [digitChar (n mod 10)])"

declare show_nat.simps [simp del]

definition show_int :: "int \<Rightarrow> string" where
  "show_int n = (if n < 0 then CHR ''-'' # show_nat (nat (- n)) else show_nat (nat n))"

text \<open>\<open>s || d\<close> on an optional string: the empty string and \<open>undefined\<close> are falsy.\<close>

definition truthy :: "string option \<Rightarrow> bool" where
  "truthy s = (case s of None \<Rightarrow> False | Some v \<Rightarrow> v \<noteq> [])"

definition or_else :: "string option \<Rightarrow> string \<Rightarrow> string" where
  "or_else s d = (case s of None \<Rightarrow> d | Some v \<Rightarrow> if v = [] then d else v)"

section \<open>JSON values and \<open>JSON.stringify\<close>\<close>

text \<open>
  An object is the list of its properties in enumeration order. Two services of the
  platform are not code of the repository and are parameters of the model: the SHA-256
  hex digest of Node's \<open>crypto\<close> module and the decimal text of a number.
\<close>

datatype json =
    JNull
  | JBool bool
  | JNum real
  | JStr string
  | JArr "json list"
  | JObj "(string \<times> json) list"

record platform =
  sha256_hex :: "string \<Rightarrow> string"
  number_toString :: "real \<Rightarrow> string"

definition hexDigit :: "nat \<Rightarrow> char" where
  "hexDigit n = (''0123456789abcdef'' ! (n mod 16))"

definition quoteChar :: "char \<Rightarrow> string" where
  "quoteChar c =
     (let n = (of_char c :: nat) in
      if n = 34 then [CHR 0x5C, CHR 0x22]
      else if n = 92 then [CHR 0x5C, CHR 0x5C]
      else if n = 8 then [CHR 0x5C, CHR ''b'']
      else if n = 9 then [CHR 0x5C, CHR ''t'']
      else if n = 10 then [CHR 0x5C, CHR ''n'']
      else if n = 12 then [CHR 0x5C, CHR ''f'']
      else if n = 13 then [CHR 0x5C, CHR ''r'']
      else if n < 32 then [CHR 0x5C, CHR ''u'', CHR ''0'', CHR ''0'', hexDigit (n div 16), hexDigit n]
      else [c])"

definition QuoteJSONString :: "string \<Rightarrow> string" where
  "QuoteJSONString s = [CHR 0x22] @ concat (map quoteChar s) @ [CHR 0x22]"

text \<open>
  \<open>SerializeJSONProperty\<close> of the language standard. With a property list (the replacer
  given as an array) every object, at every depth, prints exactly the listed keys it
  has, in the order of the list; without one it prints its own keys in their order.
\<close>

fun SerializeJSONProperty :: "platform \<Rightarrow> string list option \<Rightarrow> json \<Rightarrow> string" where
  "SerializeJSONProperty rt pl JNull = ''null''"
| "SerializeJSONProperty rt pl (JBool b) = (if b then ''true'' else ''false'')"
| "SerializeJSONProperty rt pl (JNum x) = number_toString rt x"
| "SerializeJSONProperty rt pl (JStr s) = QuoteJSONString s"
| "SerializeJSONProperty rt pl (JArr xs) =
     ''['' @ join '','' (map (SerializeJSONProperty rt pl) xs) @ '']''"
| "SerializeJSONProperty rt pl (JObj kvs) =
     (let members = map (\<lambda>kv. (fst kv, SerializeJSONProperty rt pl (snd kv))) kvs;
          K = (case pl of None \<Rightarrow> map fst kvs | Some ks \<Rightarrow> ks)
      in ''{'' @
         join '',''
           (concat (map (\<lambda>k. case map_of members k of
                                None \<Rightarrow> []
                              | Some str \<Rightarrow> [QuoteJSONString k @ '':'' @ str]) K)) @
         ''}'')"

definition JSON_stringify :: "platform \<Rightarrow> json \<Rightarrow> string list option \<Rightarrow> string" where
  "JSON_stringify rt v replacer =
     SerializeJSONProperty rt (map_option remdups replacer) v"

definition Object_keys :: "(string \<times> json) list \<Rightarrow> string list" where
  "Object_keys obj = map fst obj"

section \<open>The inputs fingerprint\<close>

text \<open>
  \<^verbatim>\<open>computeInputsHash\<close> of the feedback assimilation handler: the sorted top-level keys
  are handed to \<open>JSON.stringify\<close> as its replacer array.
\<close>

definition computeInputsHash :: "platform \<Rightarrow> (string \<times> json) list \<Rightarrow> string" where
  "computeInputsHash rt inputs =
     (let sortedJson = JSON_stringify rt (JObj inputs) (Some (sort (Object_keys inputs)))
      in sha256_hex rt sortedJson)"

text \<open>
  The enumeration order of the own properties of an object: the keys that are array
  indices (the decimal text of an integer below \<open>2^32 - 1\<close>) in ascending numeric
  order, then the other keys in the order they were added.
\<close>

definition isArrayIndex :: "string \<Rightarrow> bool" where
  "isArrayIndex k =
     (k \<noteq> [] \<and> list_all isDigit k \<and> (k = ''0'' \<or> hd k \<noteq> CHR ''0'') \<and>
      foldl (\<lambda>a c. 10 * a + digitValue c) 0 k < 4294967295)"

definition arrayIndex :: "string \<Rightarrow> nat" where
  "arrayIndex k = foldl (\<lambda>a c. 10 * a + digitValue c) 0 k"

definition OrdinaryOwnPropertyKeys :: "(string \<times> json) list \<Rightarrow> (string \<times> json) list" where
  "OrdinaryOwnPropertyKeys obj =
     sort_key (\<lambda>kv. arrayIndex (fst kv)) (filter (\<lambda>kv. isArrayIndex (fst kv)) obj) @
     filter (\<lambda>kv. \<not> isArrayIndex (fst kv)) obj"

text \<open>
  \<^verbatim>\<open>computeInputsHash\<close> of the approval learning handler: a copy of the object is built
  by adding its top-level keys in sorted order (\<open>acc[key] = inputs[key]\<close>), and printed
  in the enumeration order of the copy.
\<close>

definition computeInputsHash_approval :: "platform \<Rightarrow> (string \<times> json) list \<Rightarrow> string" where
  "computeInputsHash_approval rt inputs =
     (let sortedKeys = sort (Object_keys inputs);
          deterministicJson =
            JSON_stringify rt
              (JObj (OrdinaryOwnPropertyKeys
                       (foldl (\<lambda>acc key. case map_of inputs key of
                                            None \<Rightarrow> acc
                                          | Some v \<Rightarrow> AList.update key v acc) [] sortedKeys)))
              None
      in sha256_hex rt deterministicJson)"

section \<open>Approval learning: signal normalisation\<close>

text \<open>
  \<^verbatim>\<open>normalizeApprovalSignal(approved, confidence_adjustment?)\<close> of the approval learning
  handler.
\<close>

definition normalizeApprovalSignal :: "bool \<Rightarrow> real option \<Rightarrow> real" where
  "normalizeApprovalSignal approved confidence_adjustment =
     (let baseSignal = (if approved then 1 else - 1) in
      case confidence_adjustment of
        Some adj \<Rightarrow>
          (let adjustmentFactor = 1 + adj
           in max (- 1) (min 1 (baseSignal * adjustmentFactor)))
      | None \<Rightarrow> baseSignal)"

section \<open>Feedback assimilation: dimensional signals\<close>

record FeedbackSignal =
  dimension :: string
  signal_value :: real
  signal_confidence :: real

record StructuredRatings =
  quality :: "real option"
  clarity :: "real option"
  accuracy :: "real option"
  completeness :: "real option"

definition positiveKeywords :: "string list" where
  "positiveKeywords =
     [''excellent'', ''great'', ''good'', ''clear'', ''accurate'', ''complete'', ''well-done'']"

definition negativeKeywords :: "string list" where
  "negativeKeywords =
     [''poor'', ''bad'', ''unclear'', ''inaccurate'', ''incomplete'', ''confusing'', ''missing'']"

text \<open>The \<open>switch\<close> over the feedback type; a type with no \<open>case\<close> keeps the initial 0.\<close>

definition baseSentiment :: "string \<Rightarrow> real" where
  "baseSentiment feedbackType =
     (if feedbackType = ''approval'' then 0.8
      else if feedbackType = ''rejection'' then - 0.8
      else if feedbackType = ''suggestion'' then 0.3
      else if feedbackType = ''critique'' then - 0.3
      else if feedbackType = ''rating'' then 0
      else 0)"

definition positiveCount :: "string \<Rightarrow> nat" where
  "positiveCount rawFeedback =
     length (filter (\<lambda>kw. includes_str (toLowerCase rawFeedback) kw) positiveKeywords)"

definition negativeCount :: "string \<Rightarrow> nat" where
  "negativeCount rawFeedback =
     length (filter (\<lambda>kw. includes_str (toLowerCase rawFeedback) kw) negativeKeywords)"

definition deriveSentimentFromFeedbackType :: "string \<Rightarrow> string \<Rightarrow> real" where
  "deriveSentimentFromFeedbackType feedbackType rawFeedback =
     (let sentiment = baseSentiment feedbackType;
          keywordAdjustment =
            (real (positiveCount rawFeedback) - real (negativeCount rawFeedback)) * 0.2
      in max (- 1) (min 1 (sentiment + keywordAdjustment)))"

definition pushRating :: "string \<Rightarrow> real option \<Rightarrow> FeedbackSignal list" where
  "pushRating dname r =
     (case r of
        None \<Rightarrow> []
      | Some v \<Rightarrow> [\<lparr>dimension = dname, signal_value = v, signal_confidence = 1\<rparr>])"

definition parseFeedbackDimensions ::
  "string \<Rightarrow> string \<Rightarrow> StructuredRatings option \<Rightarrow> FeedbackSignal list" where
  "parseFeedbackDimensions rawFeedback feedbackType structuredRatings =
     (let signals =
            (case structuredRatings of
               None \<Rightarrow> []
             | Some r \<Rightarrow>
                 pushRating ''quality'' (quality r) @ pushRating ''clarity'' (clarity r) @
                 pushRating ''accuracy'' (accuracy r) @
                 pushRating ''completeness'' (completeness r))
      in if length signals = 0 then
           (let sentimentValue = deriveSentimentFromFeedbackType feedbackType rawFeedback;
                confidence = 0.6
            in [\<lparr>dimension = ''quality'', signal_value = sentimentValue,
                  signal_confidence = confidence\<rparr>,
                \<lparr>dimension = ''clarity'', signal_value = sentimentValue,
                  signal_confidence = confidence\<rparr>,
                \<lparr>dimension = ''accuracy'', signal_value = sentimentValue,
                  signal_confidence = confidence\<rparr>,
                \<lparr>dimension = ''completeness'', signal_value = sentimentValue,
                  signal_confidence = confidence\<rparr>])
         else signals)"

section \<open>The relational store\<close>

text \<open>
  The three relations the handlers read and write, each a list of rows in table order.
  Identifiers are strings. A \<open>created_at\<close> of \<open>decisions\<close> and \<open>approvals\<close> is held in
  microseconds since the epoch, the resolution of a database timestamp, and lies in the
  range of a JavaScript \<open>Date\<close>; the driver hands it to the handler as a \<open>Date\<close>, which
  keeps the whole milliseconds (\<open>toDate\<close>).
\<close>

definition toDate :: "int \<Rightarrow> int" where
  "toDate created = created div 1000"

record DecisionRecord =
  d_id :: string
  d_created_at :: int
  d_objective :: string
  d_recommendation :: string
  d_confidence :: string
  d_command :: string
  d_raw_output_hash :: string

record ApprovalRow =
  a_id :: string
  a_decision_id :: string
  a_approved :: bool
  a_reward :: real
  a_confidence_adjustment :: "real option"
  a_created_at :: int

record LearningEventRow =
  le_id :: string
  le_agent_id :: string
  le_agent_version :: string
  le_decision_type :: string
  le_source_id :: "string option"
  le_outputs :: string
  le_inputs_hash :: string
  le_confidence :: real
  le_constraints_applied :: string
  le_source_type :: string
  le_created_at :: string

record Database =
  decisions :: "DecisionRecord list"
  approvals :: "ApprovalRow list"
  learning_events :: "LearningEventRow list"

text \<open>
  Modelled from the spec: the schema of \<open>learning_events\<close> is not among the sources. The
  statement \<open>INSERT ... ON CONFLICT (inputs_hash) DO NOTHING\<close> of the approval handler
  names a uniqueness constraint on \<open>inputs_hash\<close> (the handler's comment: "idempotency
  handled by inputs_hash unique constraint"), so a plain \<open>INSERT\<close> of a row whose
  fingerprint is already stored fails, and the conflict-ignoring one leaves the table as
  it is.
\<close>

definition insert_learning_event ::
  "LearningEventRow \<Rightarrow> LearningEventRow list \<Rightarrow> LearningEventRow list option" where
  "insert_learning_event row rows =
     (if le_inputs_hash row \<in> set (map le_inputs_hash rows) then None
      else Some (rows @ [row]))"

definition insert_on_conflict_do_nothing ::
  "LearningEventRow \<Rightarrow> LearningEventRow list \<Rightarrow> LearningEventRow list" where
  "insert_on_conflict_do_nothing row rows =
     (case insert_learning_event row rows of None \<Rightarrow> rows | Some rows' \<Rightarrow> rows')"

datatype 'a http_response = Status200 'a | Status201 'a | Status400 | Status500

section \<open>Approval learning handler\<close>

record ApprovalLearningInput =
  decision_id :: "string option"
  approved :: bool
  confidence_adjustment :: "real option"
  reviewer_role :: "string option"
  review_scope :: "string option"
  artifact_type :: "string option"
  feedback :: "string option"
  timestamp :: "string option"

text \<open>
  \<^verbatim>\<open>createApprovalLearningSchema\<close>: the body is typed already, so what is left of the
  schema are its range constraints.
\<close>

definition createApprovalLearningSchema :: "ApprovalLearningInput \<Rightarrow> bool" where
  "createApprovalLearningSchema b =
     ((case decision_id b of None \<Rightarrow> True | Some s \<Rightarrow> 1 \<le> length s) \<and>
      (case confidence_adjustment b of None \<Rightarrow> True | Some x \<Rightarrow> - 1 \<le> x \<and> x \<le> 1))"

record LearningDecisionEvent =
  lde_id :: string
  lde_agent_id :: string
  lde_agent_version :: string
  lde_decision_type :: string
  lde_source_decision_id :: "string option"
  lde_inputs :: "(string \<times> json) list"
  lde_inputs_hash :: string
  lde_output :: json
  lde_confidence :: real
  lde_constraints_applied :: json
  lde_created_at :: string

definition emitLearningDecisionEvent ::
  "platform \<Rightarrow> LearningDecisionEvent \<Rightarrow> Database \<Rightarrow> Database" where
  "emitLearningDecisionEvent rt event db =
     db\<lparr>learning_events :=
          insert_on_conflict_do_nothing
            \<lparr>le_id = lde_id event,
             le_agent_id = lde_agent_id event,
             le_agent_version = lde_agent_version event,
             le_decision_type = lde_decision_type event,
             le_source_id =
               (if truthy (lde_source_decision_id event) then lde_source_decision_id event
                else None),
             le_outputs = JSON_stringify rt (lde_output event) None,
             le_inputs_hash = lde_inputs_hash event,
             le_confidence = lde_confidence event,
             le_constraints_applied = JSON_stringify rt (lde_constraints_applied event) None,
             le_source_type = ''approval_learning'',
             le_created_at = lde_created_at event\<rparr>
            (learning_events db)\<rparr>"

record ApprovalLearningResponse =
  r_id :: string
  r_decision_type :: string
  r_normalized_signal :: real
  r_confidence :: real
  r_inputs_hash :: string
  r_idempotent :: bool
  r_learning_applied :: bool

definition str_or_null :: "string \<Rightarrow> json" where
  "str_or_null s = (if s = [] then JNull else JStr s)"

text \<open>The source decision of the request: the first row the lookup by id returns.\<close>

definition loadSourceDecision :: "Database \<Rightarrow> string option \<Rightarrow> DecisionRecord option" where
  "loadSourceDecision db did =
     (if truthy did then
        (case filter (\<lambda>d. Some (d_id d) = did) (decisions db) of
           [] \<Rightarrow> None
         | d # _ \<Rightarrow> Some d)
      else None)"

text \<open>The confidence of the learning event, as the handler computes it in two steps.\<close>

definition approvalConfidence :: "real \<Rightarrow> bool \<Rightarrow> string option \<Rightarrow> real" where
  "approvalConfidence normalizedSignal hasSource role =
     (let confidence = \<bar>normalizedSignal\<bar>;
          confidence = (if hasSource then min 1 (confidence + 0.1) else confidence);
          confidence = (if truthy role \<and> role \<noteq> Some ''unknown''
                        then min 1 (confidence + 0.05) else confidence)
      in confidence)"

text \<open>
  \<^verbatim>\<open>createApprovalLearningHandler\<close>. The fresh identifier \<open>uuidv4()\<close> and the clock
  \<open>new Date().toISOString()\<close> of the call are arguments; the handler returns the store
  and the response. A body the schema rejects is answered 400; failures of the storage
  client (the 500 of the \<open>catch\<close> block) are not modelled.
\<close>

definition createApprovalLearningHandler ::
  "platform \<Rightarrow> string \<Rightarrow> string \<Rightarrow> ApprovalLearningInput \<Rightarrow> Database
   \<Rightarrow> Database \<times> ApprovalLearningResponse http_response" where
  "createApprovalLearningHandler rt uuid now body db =
     (if \<not> createApprovalLearningSchema body then (db, Status400)
      else
        (let sourceDecision = loadSourceDecision db (decision_id body);
             normalizedSignal =
               normalizeApprovalSignal (approved body) (confidence_adjustment body);
             inputs =
               [(''decision_id'', JStr (or_else (decision_id body) ''none'')),
                (''approved'', JBool (approved body)),
                (''confidence_adjustment'',
                   JNum (case confidence_adjustment body of None \<Rightarrow> 0 | Some x \<Rightarrow> x)),
                (''reviewer_role'', JStr (or_else (reviewer_role body) ''unknown'')),
                (''review_scope'', JStr (or_else (review_scope body) ''general'')),
                (''artifact_type'', JStr (or_else (artifact_type body) ''unknown'')),
                (''timestamp'', JStr (or_else (timestamp body) now))];
             inputsHash = computeInputsHash_approval rt inputs;
             eventId = uuid;
             output =
               JObj
                 [(''normalized_signal'', JNum normalizedSignal),
                  (''signal_type'', JStr (if approved body then ''approval'' else ''rejection'')),
                  (''signal_strength'', JNum \<bar>normalizedSignal\<bar>),
                  (''feedback'', str_or_null (or_else (feedback body) [])),
                  (''source_recommendation'',
                     (case sourceDecision of None \<Rightarrow> JNull
                      | Some d \<Rightarrow> str_or_null (d_recommendation d))),
                  (''source_confidence'',
                     (case sourceDecision of None \<Rightarrow> JNull
                      | Some d \<Rightarrow> str_or_null (d_confidence d)))];
             confidence =
               approvalConfidence normalizedSignal (sourceDecision \<noteq> None) (reviewer_role body);
             constraintsApplied =
               JObj
                 [(''reviewer_role'', JStr (or_else (reviewer_role body) ''unknown'')),
                  (''review_scope'', JStr (or_else (review_scope body) ''general'')),
                  (''artifact_type'', JStr (or_else (artifact_type body) ''unknown'')),
                  (''has_source_context'', JBool (sourceDecision \<noteq> None)),
                  (''has_feedback'', JBool (truthy (feedback body)))];
             learningEvent =
               \<lparr>lde_id = eventId,
                lde_agent_id = ''approval-learning-agent'',
                lde_agent_version = ''1.0.0'',
                lde_decision_type = ''approval_learning'',
                lde_source_decision_id = decision_id body,
                lde_inputs = inputs,
                lde_inputs_hash = inputsHash,
                lde_output = output,
                lde_confidence = confidence,
                lde_constraints_applied = constraintsApplied,
                lde_created_at = or_else (timestamp body) now\<rparr>;
             db' = emitLearningDecisionEvent rt learningEvent db
         in (db',
             Status201
               \<lparr>r_id = eventId,
                r_decision_type = ''approval_learning'',
                r_normalized_signal = normalizedSignal,
                r_confidence = confidence,
                r_inputs_hash = inputsHash,
                r_idempotent = True,
                r_learning_applied = True\<rparr>)))"

section \<open>Feedback assimilation handler\<close>

record NormalizedFeedback =
  nf_normalized_signals :: "FeedbackSignal list"
  nf_feedback_summary :: string
  nf_processing_metadata :: "(string \<times> json) list"

definition sum_values :: "FeedbackSignal list \<Rightarrow> real" where
  "sum_values sigs = foldl (\<lambda>acc sg. acc + signal_value sg) 0 sigs"

definition sum_confidences :: "FeedbackSignal list \<Rightarrow> real" where
  "sum_confidences sigs = foldl (\<lambda>acc sg. acc + signal_confidence sg) 0 sigs"

definition normalizeFeedback ::
  "string \<Rightarrow> string \<Rightarrow> StructuredRatings option \<Rightarrow> NormalizedFeedback" where
  "normalizeFeedback rawFeedback feedbackType structuredRatings =
     (let normalizedSignals = parseFeedbackDimensions rawFeedback feedbackType structuredRatings;
          avgValue = sum_values normalizedSignals / real (length normalizedSignals);
          sentiment = (if avgValue > 0.3 then ''positive''
                       else if avgValue < - 0.3 then ''negative'' else ''neutral'');
          feedbackSummary =
            feedbackType @ '' feedback with '' @ sentiment @ '' sentiment ('' @
            show_nat (length normalizedSignals) @ '' dimensions)'';
          processingMetadata =
            [(''method'', JStr ''heuristic-sentiment-analysis''),
             (''dimensions_extracted'', JNum (real (length normalizedSignals))),
             (''had_structured_ratings'', JBool (structuredRatings \<noteq> None)),
             (''feedback_length'', JNum (real (length rawFeedback))),
             (''avg_signal_value'', JNum avgValue)]
      in \<lparr>nf_normalized_signals = normalizedSignals,
          nf_feedback_summary = feedbackSummary,
          nf_processing_metadata = processingMetadata\<rparr>)"

record AssimilationMetadata =
  feedback_source :: string
  processing_method :: string

record FeedbackAssimilationInput =
  fa_agent_id :: "string option"
  fa_agent_version :: "string option"
  fa_source_artifact_id :: string
  fa_feedback_type :: string
  fa_raw_feedback :: string
  fa_normalized_signals :: "FeedbackSignal list option"
  fa_assimilation_metadata :: AssimilationMetadata
  fa_outputs :: "unit option"
  fa_confidence :: "real option"
  fa_constraints_applied :: "unit option"
  fa_inputs_hash :: "string option"
  fa_timestamp :: "string option"

text \<open>
  \<^verbatim>\<open>createFeedbackAssimilationSchema\<close>. The two \<open>z.object({})\<close> fields keep no key of
  what was sent, so they are present or absent; \<open>execution_ref\<close> reaches neither the
  store nor the response and is left out.
\<close>

definition createFeedbackAssimilationSchema :: "FeedbackAssimilationInput \<Rightarrow> bool" where
  "createFeedbackAssimilationSchema b =
     (1 \<le> length (fa_source_artifact_id b) \<and>
      fa_feedback_type b \<in> set [''qualitative'', ''quantitative'', ''mixed''] \<and>
      1 \<le> length (fa_raw_feedback b) \<and>
      (case fa_normalized_signals b of
         None \<Rightarrow> True
       | Some sigs \<Rightarrow>
           list_all (\<lambda>sg. - 1 \<le> signal_value sg \<and> signal_value sg \<le> 1 \<and>
                          0 \<le> signal_confidence sg \<and> signal_confidence sg \<le> 1) sigs) \<and>
      (case fa_confidence b of None \<Rightarrow> True | Some c \<Rightarrow> 0 \<le> c \<and> c \<le> 1))"

record FeedbackAssimilationEvent =
  fe_agent_id :: string
  fe_agent_version :: string
  fe_decision_type :: string
  fe_source_artifact_id :: string
  fe_feedback_type :: string
  fe_raw_feedback :: string
  fe_normalized_signals :: "FeedbackSignal list"
  fe_assimilation_metadata :: AssimilationMetadata
  fe_inputs_hash :: string
  fe_outputs :: json
  fe_confidence :: real
  fe_constraints_applied :: json
  fe_timestamp :: string

text \<open>
  \<^verbatim>\<open>emitLearningEvent\<close>: look the fingerprint up, return the identifier of the first row
  found, otherwise insert under a fresh identifier. \<open>None\<close> is the exception of a failed
  \<open>INSERT\<close>.
\<close>

definition emitLearningEvent ::
  "platform \<Rightarrow> string \<Rightarrow> string \<Rightarrow> FeedbackAssimilationEvent \<Rightarrow> Database
   \<Rightarrow> (Database \<times> string) option" where
  "emitLearningEvent rt uuid now event db =
     (case filter (\<lambda>r. le_inputs_hash r = fe_inputs_hash event \<and>
                        le_decision_type r = fe_decision_type event) (learning_events db) of
        existing # _ \<Rightarrow> Some (db, le_id existing)
      | [] \<Rightarrow>
          (let eventId = uuid in
           case insert_learning_event
                  \<lparr>le_id = eventId,
                   le_agent_id = fe_agent_id event,
                   le_agent_version = fe_agent_version event,
                   le_decision_type = fe_decision_type event,
                   le_source_id = Some (fe_source_artifact_id event),
                   le_outputs = JSON_stringify rt (fe_outputs event) None,
                   le_inputs_hash = fe_inputs_hash event,
                   le_confidence = fe_confidence event,
                   le_constraints_applied = JSON_stringify rt (fe_constraints_applied event) None,
                   le_source_type = ''feedback_assimilation'',
                   le_created_at = now\<rparr>
                  (learning_events db) of
             None \<Rightarrow> None
           | Some rows' \<Rightarrow> Some (db\<lparr>learning_events := rows'\<rparr>, eventId)))"

record FeedbackAssimilationResponse =
  fr_id :: string
  fr_agent_id :: string
  fr_decision_type :: string
  fr_source_artifact_id :: string
  fr_feedback_type :: string
  fr_normalized_signals_count :: nat
  fr_created :: bool
  fr_timestamp :: string

definition signal_json :: "FeedbackSignal \<Rightarrow> json" where
  "signal_json sg =
     JObj [(''dimension'', JStr (dimension sg)), (''value'', JNum (signal_value sg)),
           (''confidence'', JNum (signal_confidence sg))]"

text \<open>
  \<^verbatim>\<open>createFeedbackAssimilationHandler\<close>, in two parts: the learning event the handler
  builds from the validated body, and the handler proper, which emits it and answers.
  The fresh identifier and the clock of the call are arguments.
\<close>

definition feedbackLearningEvent ::
  "platform \<Rightarrow> string \<Rightarrow> FeedbackAssimilationInput \<Rightarrow> FeedbackAssimilationEvent" where
  "feedbackLearningEvent rt now body =
     (let agent_id = (case fa_agent_id body of None \<Rightarrow> ''feedback-assimilation-agent''
                      | Some a \<Rightarrow> a);
          agent_version = (case fa_agent_version body of None \<Rightarrow> ''1.0.0'' | Some v \<Rightarrow> v);
          source_artifact_id = fa_source_artifact_id body;
          feedback_type = fa_feedback_type body;
          raw_feedback = fa_raw_feedback body;
          assimilation_metadata = fa_assimilation_metadata body;
          eventTimestamp = or_else (fa_timestamp body) now;
          provided = (case fa_normalized_signals body of None \<Rightarrow> [] | Some sigs \<Rightarrow> sigs);
          normalized = normalizeFeedback raw_feedback feedback_type None;
          normalizedSignals =
            (if 0 < length provided then provided else nf_normalized_signals normalized);
          average = sum_confidences normalizedSignals / real (length normalizedSignals);
          aggregateConfidence =
            (if 0 < length provided then
               (case fa_confidence body of
                  None \<Rightarrow> average
                | Some c \<Rightarrow> if c = 0 then average else c)
             else average);
          processingMethod =
            (if 0 < length provided then processing_method assimilation_metadata
             else ''heuristic-sentiment-analysis'');
          inputs =
            [(''source_artifact_id'', JStr source_artifact_id),
             (''feedback_type'', JStr feedback_type),
             (''raw_feedback'', JStr raw_feedback),
             (''feedback_source'', JStr (feedback_source assimilation_metadata))];
          inputsHash =
            (if truthy (fa_inputs_hash body) then or_else (fa_inputs_hash body) []
             else computeInputsHash rt inputs);
          outputs =
            (case fa_outputs body of
               Some _ \<Rightarrow> JObj []
             | None \<Rightarrow>
                 JObj
                   [(''normalized_signals'', JArr (map signal_json normalizedSignals)),
                    (''feedback_summary'',
                       JStr (feedback_type @ '' feedback with '' @
                             show_nat (length normalizedSignals) @ '' dimensions'')),
                    (''processing_metadata'',
                       JObj [(''method'', JStr processingMethod),
                             (''dimensions_extracted'',
                                JNum (real (length normalizedSignals))),
                             (''feedback_length'', JNum (real (length raw_feedback)))])]);
          constraintsApplied =
            (case fa_constraints_applied body of
               Some _ \<Rightarrow> JObj []
             | None \<Rightarrow>
                 JObj [(''feedback_source'', JStr (feedback_source assimilation_metadata)),
                       (''processing_method'', JStr processingMethod)])
      in \<lparr>fe_agent_id = agent_id,
          fe_agent_version = agent_version,
          fe_decision_type = ''feedback_assimilation'',
          fe_source_artifact_id = source_artifact_id,
          fe_feedback_type = feedback_type,
          fe_raw_feedback = raw_feedback,
          fe_normalized_signals = normalizedSignals,
          fe_assimilation_metadata = assimilation_metadata,
          fe_inputs_hash = inputsHash,
          fe_outputs = outputs,
          fe_confidence = aggregateConfidence,
          fe_constraints_applied = constraintsApplied,
          fe_timestamp = eventTimestamp\<rparr>)"

definition createFeedbackAssimilationHandler ::
  "platform \<Rightarrow> string \<Rightarrow> string \<Rightarrow> FeedbackAssimilationInput \<Rightarrow> Database
   \<Rightarrow> Database \<times> FeedbackAssimilationResponse http_response" where
  "createFeedbackAssimilationHandler rt uuid now body db =
     (if \<not> createFeedbackAssimilationSchema body then (db, Status400)
      else
        (let learningEvent = feedbackLearningEvent rt now body in
         case emitLearningEvent rt uuid now learningEvent db of
           None \<Rightarrow> (db, Status500)
         | Some (db', storedEventId) \<Rightarrow>
             (db',
              Status201
                \<lparr>fr_id = storedEventId,
                 fr_agent_id = fe_agent_id learningEvent,
                 fr_decision_type = ''feedback_assimilation'',
                 fr_source_artifact_id = fe_source_artifact_id learningEvent,
                 fr_feedback_type = fe_feedback_type learningEvent,
                 fr_normalized_signals_count = length (fe_normalized_signals learningEvent),
                 fr_created = True,
                 fr_timestamp = fe_timestamp learningEvent\<rparr>)))"

section \<open>Decision events: \<open>GET /events/decisions\<close>\<close>

datatype DecisionEventType = plan_created | plan_approved | plan_rejected | plan_deferred

fun type_tag :: "DecisionEventType \<Rightarrow> string" where
  "type_tag plan_created = ''plan_created''"
| "type_tag plan_approved = ''plan_approved''"
| "type_tag plan_rejected = ''plan_rejected''"
| "type_tag plan_deferred = ''plan_deferred''"

text \<open>
  A decision event. Its \<open>timestamp\<close> is the ISO text of the row's \<open>Date\<close>, which the
  handler reads back with \<open>new Date(...).getTime()\<close>: the model keeps the milliseconds.
\<close>

record DecisionEvent =
  ev_id :: string
  ev_type :: DecisionEventType
  ev_timestamp :: int
  ev_payload :: json

record DecisionEventsResponse =
  events :: "DecisionEvent list"
  next_cursor :: "string option"

definition DEFAULT_LIMIT :: int where
  "DEFAULT_LIMIT = 100"

definition MAX_LIMIT :: int where
  "MAX_LIMIT = 1000"

definition validTypes :: "string list" where
  "validTypes = [''plan_created'', ''plan_approved'', ''plan_rejected'', ''plan_deferred'']"

definition parseEventTypes :: "string option \<Rightarrow> string list option" where
  "parseEventTypes typesParam =
     (if \<not> truthy typesParam then None
      else
        (let requestedTypes =
               map (\<lambda>t. toLowerCase (trim t)) (split_on CHR '','' (or_else typesParam []));
             filteredTypes = filter (\<lambda>t. t \<in> set validTypes) requestedTypes
         in if 0 < length filteredTypes then Some filteredTypes else None))"

definition mapApprovalToEventType :: "bool \<Rightarrow> DecisionEventType" where
  "mapApprovalToEventType approved_flag = (if approved_flag then plan_approved else plan_rejected)"

definition buildEventId :: "string \<Rightarrow> string \<Rightarrow> int \<Rightarrow> string" where
  "buildEventId tag row_id ts = tag @ '':'' @ row_id @ '':'' @ show_int ts"

text \<open>
  \<open>new Date(ms)\<close>: a time value beyond \<open>8.64 * 10^15\<close> milliseconds on either side of the
  epoch gives the invalid \<open>Date\<close>, here \<open>None\<close>.
\<close>

definition new_Date :: "int \<Rightarrow> int option" where
  "new_Date ms = (if \<bar>ms\<bar> \<le> 8640000000000000 then Some ms else None)"

record Cursor =
  c_type :: string
  c_id :: string
  c_timestamp :: "int option"

definition parseCursor :: "string \<Rightarrow> Cursor option" where
  "parseCursor cursor =
     (let parts = split_on CHR '':'' cursor in
      if length parts < 3 then None
      else
        (let tag = hd parts;
             timestampMs = parseInt (last parts);
             row_id = join '':'' (butlast (tl parts))
         in case timestampMs of
              None \<Rightarrow> None
            | Some ms \<Rightarrow> Some \<lparr>c_type = tag, c_id = row_id, c_timestamp = new_Date ms\<rparr>))"

text \<open>The effective page size: \<open>Math.min(Math.max(parseInt(limit, 10) || 100, 1), 1000)\<close>.\<close>

definition parseLimit :: "string option \<Rightarrow> nat" where
  "parseLimit limit_param =
     (let parsed = (case limit_param of None \<Rightarrow> None | Some l \<Rightarrow> parseInt l);
          n = (case parsed of None \<Rightarrow> DEFAULT_LIMIT
               | Some v \<Rightarrow> if v = 0 then DEFAULT_LIMIT else v)
      in nat (min (max n 1) MAX_LIMIT))"

text \<open>
  The cursor of the request: \<open>after\<close> when it is a non-empty string that parses.
\<close>

definition requestCursor :: "string option \<Rightarrow> Cursor option" where
  "requestCursor after = (if truthy after then parseCursor (or_else after []) else None)"

text \<open>
  The order of identifiers is not code of the repository: \<open>a.id.localeCompare(b.id)\<close>
  follows the locale of the runtime, and the \<open>ORDER BY\<close> clauses and row comparisons of
  the two queries follow the type and the collation of the \<open>id\<close> columns (\<open>decisions.id\<close>,
  \<open>approvals.id\<close> and the text \<open>a.id::text\<close>). Each order is a parameter, given by a key:
  \<open>x\<close> comes before \<open>y\<close> when the key of \<open>x\<close> is below the key of \<open>y\<close>.
\<close>

record collation =
  localeCompare_key :: "string \<Rightarrow> string"
  decisions_id_key :: "string \<Rightarrow> string"
  approvals_id_key :: "string \<Rightarrow> string"
  approvals_id_text_key :: "string \<Rightarrow> string"

text \<open>
  The two parameters a parsed cursor adds to a query, its \<open>Date\<close> and its row identifier.
  The database refuses the invalid \<open>Date\<close>: the query fails (the outer \<open>None\<close>). The
  \<open>Date\<close> is sent at its millisecond precision and compared with the stored column in the
  row comparison \<open>(created_at, id) > ($1, $2)\<close>.
\<close>

definition cursorParams :: "Cursor option \<Rightarrow> (int \<times> string) option option" where
  "cursorParams cursorParts =
     (case cursorParts of
        None \<Rightarrow> Some None
      | Some c \<Rightarrow>
          (case c_timestamp c of None \<Rightarrow> None | Some ms \<Rightarrow> Some (Some (ms, c_id c))))"

definition afterCursor ::
  "(string \<Rightarrow> string) \<Rightarrow> (int \<times> string) option \<Rightarrow> int \<Rightarrow> string \<Rightarrow> bool" where
  "afterCursor key params created row_id =
     (case params of
        None \<Rightarrow> True
      | Some (ms, cursor_id) \<Rightarrow> (ms * 1000, key cursor_id) < (created, key row_id))"

text \<open>\<open>SELECT ... FROM decisions [WHERE cursor] ORDER BY created_at ASC, id ASC LIMIT n\<close>.\<close>

definition decisionsQuery ::
  "collation \<Rightarrow> Database \<Rightarrow> Cursor option \<Rightarrow> nat \<Rightarrow> DecisionRecord list option" where
  "decisionsQuery co db cursorParts parsedLimit =
     (case cursorParams cursorParts of
        None \<Rightarrow> None
      | Some params \<Rightarrow>
          Some (take parsedLimit
            (sort_key (\<lambda>r. (d_created_at r, decisions_id_key co (d_id r)))
               (filter (\<lambda>r. afterCursor (decisions_id_key co) params (d_created_at r) (d_id r))
                  (decisions db)))))"

text \<open>
  \<open>SELECT ... FROM approvals a JOIN decisions d ON d.id = a.decision_id [WHERE ...] ORDER BY
  a.created_at ASC, a.id ASC LIMIT n\<close>. The restriction on \<open>approved\<close> is added when exactly
  one of the two filters was collected; the cursor is compared as
  \<open>(a.created_at, a.id::text) > ($1, $2)\<close>.
\<close>

definition approvalsJoin :: "Database \<Rightarrow> (ApprovalRow \<times> DecisionRecord) list" where
  "approvalsJoin db =
     concat (map (\<lambda>a. map (\<lambda>d. (a, d)) (filter (\<lambda>d. d_id d = a_decision_id a) (decisions db)))
               (approvals db))"

definition approvalFilters :: "bool \<Rightarrow> bool \<Rightarrow> bool list" where
  "approvalFilters includeApproved includeRejected =
     (if includeApproved then [True] else []) @ (if includeRejected then [False] else [])"

definition approvalsQuery ::
  "collation \<Rightarrow> Database \<Rightarrow> bool list \<Rightarrow> Cursor option \<Rightarrow> nat
   \<Rightarrow> (ApprovalRow \<times> DecisionRecord) list option" where
  "approvalsQuery co db filters cursorParts parsedLimit =
     (case cursorParams cursorParts of
        None \<Rightarrow> None
      | Some params \<Rightarrow>
          Some (take parsedLimit
            (sort_key (\<lambda>r. (a_created_at (fst r), approvals_id_key co (a_id (fst r))))
               (filter (\<lambda>r. (if 0 < length filters \<and> length filters < 2
                               then a_approved (fst r) \<in> set filters else True) \<and>
                              afterCursor (approvals_id_text_key co) params
                                (a_created_at (fst r)) (a_id (fst r)))
                  (approvalsJoin db)))))"

definition decisionEvent :: "DecisionRecord \<Rightarrow> DecisionEvent" where
  "decisionEvent row =
     \<lparr>ev_id = buildEventId ''plan_created'' (d_id row) (toDate (d_created_at row)),
      ev_type = plan_created,
      ev_timestamp = toDate (d_created_at row),
      ev_payload =
        JObj [(''plan_id'', JStr (d_id row)),
              (''decision_id'', JStr (d_id row)),
              (''objective'', JStr (d_objective row)),
              (''recommendation'', JStr (d_recommendation row)),
              (''confidence'', JStr (d_confidence row)),
              (''command'', JStr (d_command row)),
              (''checksum'', JStr (d_raw_output_hash row))]\<rparr>"

definition approvalEvent :: "ApprovalRow \<times> DecisionRecord \<Rightarrow> DecisionEvent" where
  "approvalEvent r =
     (let row = fst r; d = snd r; eventType = mapApprovalToEventType (a_approved row) in
      \<lparr>ev_id = buildEventId (type_tag eventType) (a_id row) (toDate (a_created_at row)),
       ev_type = eventType,
       ev_timestamp = toDate (a_created_at row),
       ev_payload =
         JObj [(''plan_id'', JStr (a_decision_id row)),
               (''decision_id'', JStr (a_decision_id row)),
               (''simulation_id'', JStr (a_decision_id row)),
               (''objective'', JStr (d_objective d)),
               (''recommendation'', JStr (d_recommendation d)),
               (''reward'', JNum (a_reward row)),
               (''confidence_adjustment'',
                  (case a_confidence_adjustment row of None \<Rightarrow> JNull | Some x \<Rightarrow> JNum x)),
               (''reviewer_outcome'',
                  JStr (if a_approved row then ''approved'' else ''rejected''))]\<rparr>)"

definition includesType :: "string list option \<Rightarrow> string \<Rightarrow> bool" where
  "includesType eventTypes t = (case eventTypes of None \<Rightarrow> True | Some ts \<Rightarrow> t \<in> set ts)"

text \<open>
  \<^verbatim>\<open>listDecisionEventsHandler\<close>. A query that fails throws inside the \<open>try\<close> block and
  the request is answered 500; other failures of the storage client are not modelled.
  The comparator of \<open>events.sort\<close> orders by the milliseconds of the timestamp and breaks
  ties with \<open>a.id.localeCompare(b.id)\<close>; \<open>slice(0, parsedLimit)\<close> is \<^const>\<open>take\<close>.
\<close>

definition listDecisionEventsHandler ::
  "collation \<Rightarrow> Database \<Rightarrow> string option \<Rightarrow> string option \<Rightarrow> string option
   \<Rightarrow> DecisionEventsResponse http_response" where
  "listDecisionEventsHandler co db types after limit_param =
     (let parsedLimit = parseLimit limit_param;
          eventTypes = parseEventTypes types;
          includeCreated = includesType eventTypes ''plan_created'';
          includeApproved = includesType eventTypes ''plan_approved'';
          includeRejected = includesType eventTypes ''plan_rejected'';
          includeDeferred = includesType eventTypes ''plan_deferred'';
          decisionsResult =
            (if includeCreated
             then decisionsQuery co db (requestCursor after) parsedLimit
             else Some []);
          approvalsResult =
            (if includeApproved \<or> includeRejected \<or> includeDeferred
             then approvalsQuery co db (approvalFilters includeApproved includeRejected)
                    (requestCursor after) parsedLimit
             else Some [])
      in case decisionsResult of
           None \<Rightarrow> Status500
         | Some decisionRows \<Rightarrow>
             (case approvalsResult of
                None \<Rightarrow> Status500
              | Some approvalRows \<Rightarrow>
                  (let sorted_events =
                         sort_key (\<lambda>e. (ev_timestamp e, localeCompare_key co (ev_id e)))
                           (map decisionEvent decisionRows @ map approvalEvent approvalRows);
                       trimmedEvents = take parsedLimit sorted_events;
                       nextCursor =
                         (if 0 < length trimmedEvents then Some (ev_id (last trimmedEvents))
                          else None)
                   in Status200 \<lparr>events = trimmedEvents, next_cursor = nextCursor\<rparr>)))"

text \<open>
  The events of all rows the two queries can see, in table order. Sorted by timestamp
  they are the stream the pages walk through.
\<close>

definition allEvents :: "Database \<Rightarrow> DecisionEvent list" where
  "allEvents db = map decisionEvent (decisions db) @ map approvalEvent (approvalsJoin db)"

text \<open>The request whose cursor parses and holds the invalid \<open>Date\<close>.\<close>

definition invalidCursorDate :: "string option \<Rightarrow> bool" where
  "invalidCursorDate after =
     (case requestCursor after of None \<Rightarrow> False | Some c \<Rightarrow> c_timestamp c = None)"

text \<open>
  The stored timestamps of the rows the two queries read, and the two conditions under
  which a \<open>Date\<close> holds such a timestamp without loss: it is a whole number of
  milliseconds, and its milliseconds are a valid time value.
\<close>

definition rowTimestamps :: "Database \<Rightarrow> int list" where
  "rowTimestamps db = map d_created_at (decisions db) @ map a_created_at (approvals db)"

definition wholeMilliseconds :: "int \<Rightarrow> bool" where
  "wholeMilliseconds created = (created mod 1000 = 0)"

definition inDateRange :: "int \<Rightarrow> bool" where
  "inDateRange created = (\<bar>toDate created\<bar> \<le> 8640000000000000)"

text \<open>
  A decimal integer, the text a timestamp segment of a cursor is built from: an optional
  minus sign and one or more digits, nothing else.
\<close>

definition numericSegment :: "string \<Rightarrow> bool" where
  "numericSegment seg =
     (let digits = (if seg \<noteq> [] \<and> hd seg = CHR ''-'' then tl seg else seg)
      in digits \<noteq> [] \<and> list_all isDigit digits)"

section \<open>Example data\<close>

definition example_feedback :: string where
  "example_feedback = ''Great and CLEAR, accurate but missing''"

text \<open>
  A store with three decisions and two approvals, five rows with pairwise distinct
  timestamps, each a whole number of milliseconds (10 ms to 50 ms after the epoch); one
  row identifier contains the separator of the cursor.
\<close>

definition example_decision :: "string \<Rightarrow> int \<Rightarrow> DecisionRecord" where
  "example_decision i t =
     \<lparr>d_id = i, d_created_at = t, d_objective = ''objective'',
      d_recommendation = ''recommendation'', d_confidence = ''0.9'', d_command = ''plan'',
      d_raw_output_hash = ''checksum''\<rparr>"

definition example_approval :: "string \<Rightarrow> string \<Rightarrow> bool \<Rightarrow> int \<Rightarrow> ApprovalRow" where
  "example_approval i d b t =
     \<lparr>a_id = i, a_decision_id = d, a_approved = b, a_reward = 1,
      a_confidence_adjustment = None, a_created_at = t\<rparr>"

definition example_db :: Database where
  "example_db =
     \<lparr>decisions = [example_decision ''d1'' 10000, example_decision ''d:2'' 30000,
                   example_decision ''d3'' 50000],
      approvals = [example_approval ''a1'' ''d1'' True 20000,
                   example_approval ''a2'' ''d:2'' False 40000],
      learning_events = []\<rparr>"

text \<open>A store whose only row was created 10.5 ms after the epoch.\<close>

definition example_fine_db :: Database where
  "example_fine_db =
     \<lparr>decisions = [example_decision ''d1'' 10500], approvals = [], learning_events = []\<rparr>"

text \<open>Identifiers ordered code unit by code unit, in the runtime and in the database.\<close>

definition example_collation :: collation where
  "example_collation =
     \<lparr>localeCompare_key = (\<lambda>s. s), decisions_id_key = (\<lambda>s. s),
      approvals_id_key = (\<lambda>s. s), approvals_id_text_key = (\<lambda>s. s)\<rparr>"

text \<open>
  A stand-in platform for evaluating examples: the digest keeps its input (so it is
  injective) and every number prints as \<open>0\<close>.
\<close>

definition example_platform :: platform where
  "example_platform = \<lparr>sha256_hex = (\<lambda>s. s), number_toString = (\<lambda>x. ''0'')\<rparr>"

text \<open>A review of decision \<open>d1\<close> by a known role, dampened by one half.\<close>

definition example_review :: ApprovalLearningInput where
  "example_review =
     \<lparr>decision_id = Some ''d1'', approved = True, confidence_adjustment = Some (- 0.5),
      reviewer_role = Some ''lead'', review_scope = None, artifact_type = None,
      feedback = None, timestamp = Some ''2024-01-01T00:00:00.000Z''\<rparr>"

text \<open>
  The same review submitted twice, the second time on the store the first left, under
  two different fresh identifiers.
\<close>

definition example_first :: "Database \<times> ApprovalLearningResponse http_response" where
  "example_first =
     createApprovalLearningHandler example_platform ''uuid-1'' ''2024-01-01T00:00:10.000Z''
       example_review example_db"

definition example_second :: "Database \<times> ApprovalLearningResponse http_response" where
  "example_second =
     createApprovalLearningHandler example_platform ''uuid-2'' ''2024-01-01T00:00:20.000Z''
       example_review (fst example_first)"

text \<open>
  The same review submitted before decision \<open>d1\<close> exists and again after it was created.
\<close>

definition example_no_decisions :: Database where
  "example_no_decisions = \<lparr>decisions = [], approvals = [], learning_events = []\<rparr>"

definition example_early :: "Database \<times> ApprovalLearningResponse http_response" where
  "example_early =
     createApprovalLearningHandler example_platform ''uuid-1'' ''2024-01-01T00:00:10.000Z''
       example_review example_no_decisions"

definition example_late :: "Database \<times> ApprovalLearningResponse http_response" where
  "example_late =
     createApprovalLearningHandler example_platform ''uuid-2'' ''2024-01-01T00:00:20.000Z''
       example_review ((fst example_early)\<lparr>decisions := decisions example_db\<rparr>)"

text \<open>The body \<open>{"approved": true}\<close>, submitted at two instants.\<close>

definition example_bare :: ApprovalLearningInput where
  "example_bare =
     \<lparr>decision_id = None, approved = True, confidence_adjustment = None,
      reviewer_role = None, review_scope = None, artifact_type = None,
      feedback = None, timestamp = None\<rparr>"

definition example_bare_first :: "Database \<times> ApprovalLearningResponse http_response" where
  "example_bare_first =
     createApprovalLearningHandler example_platform ''uuid-1'' ''2024-01-01T00:00:10.000Z''
       example_bare example_db"

definition example_bare_second :: "Database \<times> ApprovalLearningResponse http_response" where
  "example_bare_second =
     createApprovalLearningHandler example_platform ''uuid-2'' ''2024-01-01T00:00:20.000Z''
       example_bare (fst example_bare_first)"

text \<open>A feedback submission.\<close>

definition example_feedback_body :: FeedbackAssimilationInput where
  "example_feedback_body =
     \<lparr>fa_agent_id = None, fa_agent_version = None, fa_source_artifact_id = ''artifact-1'',
      fa_feedback_type = ''qualitative'', fa_raw_feedback = example_feedback,
      fa_normalized_signals = None,
      fa_assimilation_metadata = \<lparr>feedback_source = ''reviewer'', processing_method = ''manual''\<rparr>,
      fa_outputs = None, fa_confidence = None, fa_constraints_applied = None,
      fa_inputs_hash = None, fa_timestamp = None\<rparr>"

text \<open>Two objects that differ in a nested value, and two that differ in nested key order.\<close>

definition nested_one :: "(string \<times> json) list" where
  "nested_one = [(''a'', JObj [(''b'', JNum 1)])]"

definition nested_two :: "(string \<times> json) list" where
  "nested_two = [(''a'', JObj [(''b'', JNum 2)])]"

definition nested_xy :: "(string \<times> json) list" where
  "nested_xy = [(''a'', JObj [(''x'', JStr ''1''), (''y'', JStr ''2'')])]"

definition nested_yx :: "(string \<times> json) list" where
  "nested_yx = [(''a'', JObj [(''y'', JStr ''2''), (''x'', JStr ''1'')])]"

text \<open>The body and the status code of a response.\<close>

definition response_body :: "'a http_response \<Rightarrow> 'a option" where
  "response_body resp =
     (case resp of Status200 r \<Rightarrow> Some r | Status201 r \<Rightarrow> Some r | _ \<Rightarrow> None)"

definition status_code :: "'a http_response \<Rightarrow> nat" where
  "status_code resp =
     (case resp of Status200 _ \<Rightarrow> 200 | Status201 _ \<Rightarrow> 201 | Status400 \<Rightarrow> 400
      | Status500 \<Rightarrow> 500)"

text \<open>The event identifiers and the cursor of a response.\<close>

definition page_of :: "DecisionEventsResponse http_response \<Rightarrow> (string list \<times> string option) option" where
  "page_of resp =
     (case resp of Status200 r \<Rightarrow> Some (map ev_id (events r), next_cursor r) | _ \<Rightarrow> None)"

definition types_of :: "DecisionEventsResponse http_response \<Rightarrow> DecisionEventType list" where
  "types_of resp = (case resp of Status200 r \<Rightarrow> map ev_type (events r) | _ \<Rightarrow> [])"

section \<open>Properties of the signal normalisers\<close>

text \<open>
  C5. \<open>normalizeApprovalSignal\<close> returns the base signal, \<open>+1\<close> for an approval and \<open>-1\<close>
  for a rejection, when no adjustment is given; with an adjustment \<open>a\<close> it returns the
  base signal times \<open>1 + a\<close>, clamped to \<open>[-1, 1]\<close>. The four values of the specification
  follow: \<open>(true, undefined) = 1\<close>, \<open>(false, undefined) = -1\<close>, \<open>(true, -1) = 0\<close> and
  \<open>(true, 1) = 1\<close>.
\<close>

theorem normalizeApprovalSignal_spec:
  "normalizeApprovalSignal ap None = (if ap then 1 else - 1) \<and>
   normalizeApprovalSignal ap (Some a) =
     max (- 1) (min 1 ((if ap then 1 else - 1) * (1 + a))) \<and>
   - 1 \<le> normalizeApprovalSignal ap adj \<and> normalizeApprovalSignal ap adj \<le> 1 \<and>
   normalizeApprovalSignal True None = 1 \<and>
   normalizeApprovalSignal False None = - 1 \<and>
   normalizeApprovalSignal True (Some (- 1)) = 0 \<and>
   normalizeApprovalSignal True (Some 1) = 1"
  by (cases adj) (simp_all add: normalizeApprovalSignal_def)




section \<open>Outcome of a request for events\<close>

lemma cursorParams_None_iff:
  "(cursorParams (requestCursor after) = None) = invalidCursorDate after"
  by (simp add: cursorParams_def invalidCursorDate_def split: option.splits)

lemma some_query_runs:
  "includesType (parseEventTypes types) ''plan_created'' \<or>
   includesType (parseEventTypes types) ''plan_approved'' \<or>
   includesType (parseEventTypes types) ''plan_rejected'' \<or>
   includesType (parseEventTypes types) ''plan_deferred''"
proof (cases "parseEventTypes types")
  case None
  then show ?thesis by (simp add: includesType_def)
next
  case (Some ts)
  then obtain t where "t \<in> set ts" "t \<in> set validTypes"
    by (fastforce simp: parseEventTypes_def Let_def filter_empty_conv split: if_splits)
  then show ?thesis
    using Some by (auto simp: includesType_def validTypes_def)
qed

lemma handler_invalid_cursor:
  assumes "invalidCursorDate after"
  shows "listDecisionEventsHandler co db types after l = Status500"
proof -
  have n: "cursorParams (requestCursor after) = None"
    using assms by (simp add: cursorParams_None_iff)
  show ?thesis
    using some_query_runs [of types]
    by (auto simp: listDecisionEventsHandler_def decisionsQuery_def approvalsQuery_def n Let_def
        split: option.splits)
qed

lemma handler_status200:
  assumes "\<not> invalidCursorDate after"
  shows "\<exists>r. listDecisionEventsHandler co db types after l = Status200 r"
proof -
  obtain params where n: "cursorParams (requestCursor after) = Some params"
    using assms cursorParams_None_iff [of after] by (cases "cursorParams (requestCursor after)") auto
  show ?thesis
    by (simp add: listDecisionEventsHandler_def decisionsQuery_def approvalsQuery_def n Let_def)
qed

lemma handler_events_length:
  "listDecisionEventsHandler co db types after l = Status200 r \<Longrightarrow>
   length (events r) \<le> parseLimit l"
  by (auto simp: listDecisionEventsHandler_def Let_def split: option.splits)

section \<open>Properties of the page size\<close>

lemma parseLimit_range: "1 \<le> parseLimit l \<and> parseLimit l \<le> 1000"
  by (auto simp: parseLimit_def DEFAULT_LIMIT_def MAX_LIMIT_def Let_def split: option.splits)

lemma parseInt_examples:
  "parseInt ''0'' = Some 0" "parseInt ''7'' = Some 7" "parseInt ''abc'' = None"
  by (code_simp, code_simp, code_simp)

text \<open>
  C9, as the code has it. The effective page size always lies in \<open>[1, 1000]\<close> and is 100
  when the parameter is absent. When the parameter parses to a non-zero integer the page
  size is that integer clamped to \<open>[1, 1000]\<close>; when it does not parse, or parses to 0,
  the page size is the default 100 (\<open>parseInt(limit, 10) || DEFAULT_LIMIT\<close>). The
  response is a 200 whose events array is never longer than the effective page size;
  the one request that gets no events array is the one whose cursor holds an invalid
  \<open>Date\<close>, answered 500.
\<close>

theorem parseLimit_spec:
  "1 \<le> parseLimit l \<and> parseLimit l \<le> 1000 \<and>
   parseLimit None = 100 \<and>
   (parseInt s = Some n \<and> n \<noteq> 0 \<longrightarrow> parseLimit (Some s) = nat (max 1 (min 1000 n))) \<and>
   (parseInt s = None \<or> parseInt s = Some 0 \<longrightarrow> parseLimit (Some s) = 100) \<and>
   (if invalidCursorDate after
    then listDecisionEventsHandler co db types after l = Status500
    else (\<exists>r. listDecisionEventsHandler co db types after l = Status200 r \<and>
              length (events r) \<le> parseLimit l))"
proof -
  have "if invalidCursorDate after
    then listDecisionEventsHandler co db types after l = Status500
    else (\<exists>r. listDecisionEventsHandler co db types after l = Status200 r \<and>
              length (events r) \<le> parseLimit l)"
    using handler_invalid_cursor handler_status200 handler_events_length
    by (cases "invalidCursorDate after") (simp, metis)
  moreover have "parseLimit None = 100"
    by (simp add: parseLimit_def DEFAULT_LIMIT_def MAX_LIMIT_def)
  moreover have "parseInt s = Some n \<and> n \<noteq> 0 \<longrightarrow> parseLimit (Some s) = nat (max 1 (min 1000 n))"
    by (auto simp: parseLimit_def DEFAULT_LIMIT_def MAX_LIMIT_def)
  moreover have "parseInt s = None \<or> parseInt s = Some 0 \<longrightarrow> parseLimit (Some s) = 100"
    by (auto simp: parseLimit_def DEFAULT_LIMIT_def MAX_LIMIT_def)
  ultimately show ?thesis using parseLimit_range by blast
qed

theorem parseLimit_spec_witness:
  "parseInt ''7'' = Some 7 \<and> parseLimit (Some ''7'') = 7 \<and>
   parseInt ''abc'' = None \<and> parseLimit (Some ''abc'') = 100"
  using parseLimit_spec [of None "''7''" 7] parseLimit_spec [of None "''abc''" 0]
    parseInt_examples by simp

text \<open>
  The claim as the specification words it, "clamped to \<open>[1, 1000]\<close>", fails for
  \<open>limit=0\<close>: the parameter parses to 0, whose clamp is 1, and the page size is 100.
\<close>

theorem parseLimit_zero_counterexample:
  "parseInt ''0'' = Some 0 \<and> parseLimit (Some ''0'') = 100 \<and>
   nat (max 1 (min 1000 (0::int))) = 1"
  using parseInt_examples by (simp add: parseLimit_def DEFAULT_LIMIT_def MAX_LIMIT_def)

section \<open>Properties of the type filter\<close>

lemma parseEventTypes_examples:
  "parseEventTypes (Some ''plan_deferred'') = Some [''plan_deferred'']"
  "parseEventTypes (Some ''plan_approved,plan_rejected'') = Some [''plan_approved'', ''plan_rejected'']"
  by (code_simp, code_simp)

lemma example_deferred_types:
  "types_of (listDecisionEventsHandler example_collation example_db (Some ''plan_deferred'')
       None None) =
     [plan_approved, plan_rejected]"
  by code_simp

lemma approvalsQuery_unrestricted:
  "approvalsQuery co db [] c n =
     map_option (\<lambda>params.
       take n (sort_key (\<lambda>r. (a_created_at (fst r), approvals_id_key co (a_id (fst r))))
         (filter (\<lambda>r. afterCursor (approvals_id_text_key co) params
                         (a_created_at (fst r)) (a_id (fst r))) (approvalsJoin db))))
       (cursorParams c)"
  "approvalsQuery co db [True, False] c n = approvalsQuery co db [] c n"
  by (simp_all add: approvalsQuery_def split: option.splits)

lemma approvals_only_handler:
  assumes "\<not> includesType (parseEventTypes types) ''plan_created''"
    and "approvalsQuery co db
           (approvalFilters (includesType (parseEventTypes types) ''plan_approved'')
              (includesType (parseEventTypes types) ''plan_rejected''))
           (requestCursor after) (parseLimit l) = approvalsQuery co db [] (requestCursor after) (parseLimit l)"
    and "includesType (parseEventTypes types) ''plan_approved'' \<or>
         includesType (parseEventTypes types) ''plan_rejected'' \<or>
         includesType (parseEventTypes types) ''plan_deferred''"
  shows "listDecisionEventsHandler co db types after l =
     (case approvalsQuery co db [] (requestCursor after) (parseLimit l) of
        None \<Rightarrow> Status500
      | Some rows \<Rightarrow>
          (let t = take (parseLimit l)
                     (sort_key (\<lambda>e. (ev_timestamp e, localeCompare_key co (ev_id e)))
                        (map approvalEvent rows))
           in Status200 \<lparr>events = t,
                next_cursor = (if 0 < length t then Some (ev_id (last t)) else None)\<rparr>))"
  using assms(1,3) unfolding listDecisionEventsHandler_def Let_def assms(2)
  by (simp split: option.splits)

text \<open>
  C10. With \<open>types=plan_deferred\<close> the decisions relation is not queried, and the
  approvals relation is queried with no restriction on the \<open>approved\<close> flag: the
  response is the one of \<open>types=plan_approved,plan_rejected\<close>. On the example store it
  lists an event of type \<open>plan_approved\<close> and one of type \<open>plan_rejected\<close>, both outside
  the requested filter.
\<close>

theorem plan_deferred_unfiltered:
  "(case cursorParams (requestCursor after) of
      None \<Rightarrow> listDecisionEventsHandler co db (Some ''plan_deferred'') after l = Status500
    | Some params \<Rightarrow>
        (\<exists>r. listDecisionEventsHandler co db (Some ''plan_deferred'') after l = Status200 r \<and>
             events r =
               take (parseLimit l)
                 (sort_key (\<lambda>e. (ev_timestamp e, localeCompare_key co (ev_id e)))
                    (map approvalEvent
                       (take (parseLimit l)
                          (sort_key (\<lambda>r. (a_created_at (fst r), approvals_id_key co (a_id (fst r))))
                             (filter (\<lambda>r. afterCursor (approvals_id_text_key co) params
                                              (a_created_at (fst r)) (a_id (fst r)))
                                (approvalsJoin db)))))))) \<and>
   listDecisionEventsHandler co db (Some ''plan_deferred'') after l =
     listDecisionEventsHandler co db (Some ''plan_approved,plan_rejected'') after l \<and>
   types_of (listDecisionEventsHandler example_collation example_db (Some ''plan_deferred'')
       None None) =
     [plan_approved, plan_rejected]"
proof -
  have a: "listDecisionEventsHandler co db (Some ''plan_deferred'') after l =
     (case approvalsQuery co db [] (requestCursor after) (parseLimit l) of
        None \<Rightarrow> Status500
      | Some rows \<Rightarrow>
          (let t = take (parseLimit l)
                     (sort_key (\<lambda>e. (ev_timestamp e, localeCompare_key co (ev_id e)))
                        (map approvalEvent rows))
           in Status200 \<lparr>events = t,
                next_cursor = (if 0 < length t then Some (ev_id (last t)) else None)\<rparr>))"
    by (rule approvals_only_handler)
      (simp_all add: parseEventTypes_examples includesType_def approvalFilters_def)
  have b: "listDecisionEventsHandler co db (Some ''plan_approved,plan_rejected'') after l =
     (case approvalsQuery co db [] (requestCursor after) (parseLimit l) of
        None \<Rightarrow> Status500
      | Some rows \<Rightarrow>
          (let t = take (parseLimit l)
                     (sort_key (\<lambda>e. (ev_timestamp e, localeCompare_key co (ev_id e)))
                        (map approvalEvent rows))
           in Status200 \<lparr>events = t,
                next_cursor = (if 0 < length t then Some (ev_id (last t)) else None)\<rparr>))"
    by (rule approvals_only_handler)
      (simp_all add: parseEventTypes_examples includesType_def approvalFilters_def
        approvalsQuery_unrestricted(2))
  have c: "case cursorParams (requestCursor after) of
      None \<Rightarrow> listDecisionEventsHandler co db (Some ''plan_deferred'') after l = Status500
    | Some params \<Rightarrow>
        (\<exists>r. listDecisionEventsHandler co db (Some ''plan_deferred'') after l = Status200 r \<and>
             events r =
               take (parseLimit l)
                 (sort_key (\<lambda>e. (ev_timestamp e, localeCompare_key co (ev_id e)))
                    (map approvalEvent
                       (take (parseLimit l)
                          (sort_key (\<lambda>r. (a_created_at (fst r), approvals_id_key co (a_id (fst r))))
                             (filter (\<lambda>r. afterCursor (approvals_id_text_key co) params
                                              (a_created_at (fst r)) (a_id (fst r)))
                                (approvalsJoin db)))))))"
    unfolding a approvalsQuery_unrestricted(1)
    by (simp add: Let_def split: option.splits)
  show ?thesis
    using c example_deferred_types by (simp add: a b)
qed

section \<open>Properties of the cursor\<close>

lemma requestCursor_unparsable:
  "parseCursor c = None \<Longrightarrow> requestCursor (Some c) = None"
  by (simp add: requestCursor_def or_else_def truthy_def)

lemma requestCursor_None: "requestCursor None = None"
  by (simp add: requestCursor_def truthy_def)

lemma handler_depends_on_requestCursor:
  assumes "requestCursor a = requestCursor b"
  shows "listDecisionEventsHandler co db types a l = listDecisionEventsHandler co db types b l"
  unfolding listDecisionEventsHandler_def assms by (rule refl)

lemma handler_without_cursor:
  "\<exists>r. listDecisionEventsHandler co db types None l = Status200 r"
  by (rule handler_status200) (simp add: invalidCursorDate_def requestCursor_None)

lemma parseCursor_None_iff:
  "(parseCursor c = None) =
     (length (split_on CHR '':'' c) < 3 \<or> parseInt (last (split_on CHR '':'' c)) = None)"
  by (simp add: parseCursor_def Let_def split: option.splits)

lemma parseCursor_Some:
  "3 \<le> length (split_on CHR '':'' c) \<Longrightarrow> parseInt (last (split_on CHR '':'' c)) = Some ms \<Longrightarrow>
   parseCursor c =
     Some \<lparr>c_type = hd (split_on CHR '':'' c),
           c_id = join '':'' (butlast (tl (split_on CHR '':'' c))),
           c_timestamp = new_Date ms\<rparr>"
  by (simp add: parseCursor_def Let_def)

lemma isDigit_plain:
  assumes "isDigit c"
  shows "\<not> isStrWhiteSpaceChar c" and "c \<noteq> CHR ''-''" and "c \<noteq> CHR ''+''"
  using assms by (auto simp: isDigit_def isStrWhiteSpaceChar_def Let_def)

lemma parseInt_digits:
  assumes "ds \<noteq> []" and "list_all isDigit ds"
  shows "parseInt ds \<noteq> None" and "parseInt (CHR ''-'' # ds) \<noteq> None"
proof -
  obtain d ds' where s: "ds = d # ds'"
    using assms(1) by (cases ds) auto
  have d: "isDigit d" using assms(2) s by simp
  have t: "takeWhile isDigit ds = ds"
    using assms(2) by (simp add: takeWhile_eq_all_conv list_all_iff)
  have w: "\<not> isStrWhiteSpaceChar CHR ''-''"
    by (simp add: isStrWhiteSpaceChar_def)
  show "parseInt ds \<noteq> None"
    using isDigit_plain [OF d] t assms(1) by (simp add: parseInt_def Let_def s)
  show "parseInt (CHR ''-'' # ds) \<noteq> None"
    using w assms(1) by (simp add: parseInt_def Let_def t)
qed

lemma numericSegment_parses: "numericSegment seg \<Longrightarrow> parseInt seg \<noteq> None"
proof -
  assume n: "numericSegment seg"
  show ?thesis
  proof (cases "seg \<noteq> [] \<and> hd seg = CHR ''-''")
    case True
    then obtain ds where s: "seg = CHR ''-'' # ds" by (cases seg) auto
    then have "ds \<noteq> []" "list_all isDigit ds"
      using n by (simp_all add: numericSegment_def)
    then show ?thesis unfolding s by (rule parseInt_digits(2))
  next
    case False
    then have "seg \<noteq> []" "list_all isDigit seg"
      using n by (auto simp: numericSegment_def Let_def)
    then show ?thesis by (rule parseInt_digits(1))
  qed
qed

lemma parseCursor_examples:
  "parseCursor ''garbage'' = None"
  "parseCursor ''plan_created:d:2:30'' =
     Some \<lparr>c_type = ''plan_created'', c_id = ''d:2'', c_timestamp = Some 30\<rparr>"
  "split_on CHR '':'' ''plan_created:d:2:30'' = [''plan_created'', ''d'', ''2'', ''30'']"
  "parseInt ''30'' = Some 30"
  "split_on CHR '':'' ''garbage'' = [''garbage'']"
  by (code_simp, code_simp, code_simp, code_simp, code_simp)

text \<open>
  A cursor whose timestamp lies outside the range of a \<open>Date\<close> parses, to a cursor with
  the invalid \<open>Date\<close>, and the request is answered 500.
\<close>

lemma cursor_out_of_range:
  assumes "3 \<le> length (split_on CHR '':'' c)"
    and "parseInt (last (split_on CHR '':'' c)) = Some ms" and "8640000000000000 < \<bar>ms\<bar>"
  shows "listDecisionEventsHandler co db types (Some c) l = Status500"
proof -
  have "c \<noteq> []" using assms(1) by auto
  then have "requestCursor (Some c) = parseCursor c"
    by (simp add: requestCursor_def truthy_def or_else_def)
  then have "invalidCursorDate (Some c)"
    using parseCursor_Some [OF assms(1,2)] assms(3)
    by (simp add: invalidCursorDate_def new_Date_def)
  then show ?thesis by (rule handler_invalid_cursor)
qed

lemma far_cursor_parts:
  "split_on CHR '':'' ''plan_created:d1:99999999999999999999'' =
     [''plan_created'', ''d1'', ''99999999999999999999'']"
  by code_simp

lemma far_cursor_time: "parseInt ''99999999999999999999'' = Some 99999999999999999999"
  by (simp add: parseInt_def isDigit_def digitValue_def isStrWhiteSpaceChar_def Let_def)

lemma cursor_out_of_range_example:
  "listDecisionEventsHandler example_collation example_db None
     (Some ''plan_created:d1:99999999999999999999'') None = Status500"
  by (rule cursor_out_of_range [where ms = 99999999999999999999])
    (simp_all add: far_cursor_parts far_cursor_time)

text \<open>
  C8, as the code has it. A cursor fails to parse exactly when it has fewer than three
  colon-separated segments or \<open>parseInt\<close> finds no decimal integer at the start of its
  last segment (as in \<open>garbage\<close>); a cursor that fails to parse has therefore fewer than
  three segments or a last segment that is not a decimal integer. Such a cursor is
  treated as absent: the response is the 200 of the request without a cursor, the first
  page. A cursor that parses gives its first segment as the type tag, the segments
  between the first and the last, joined with \<open>:\<close> again, as the row identifier, and the
  integer read from its last segment as the millisecond timestamp, when that lies in
  the range of a \<open>Date\<close>.
\<close>

theorem parseCursor_fallback:
  "(parseCursor c = None) =
     (length (split_on CHR '':'' c) < 3 \<or> parseInt (last (split_on CHR '':'' c)) = None) \<and>
   (parseCursor c = None \<longrightarrow>
      (length (split_on CHR '':'' c) < 3 \<or> \<not> numericSegment (last (split_on CHR '':'' c))) \<and>
      listDecisionEventsHandler co db types (Some c) l =
        listDecisionEventsHandler co db types None l \<and>
      (\<exists>r. listDecisionEventsHandler co db types (Some c) l = Status200 r)) \<and>
   (3 \<le> length (split_on CHR '':'' c) \<and> parseInt (last (split_on CHR '':'' c)) = Some ms \<and>
    \<bar>ms\<bar> \<le> 8640000000000000 \<longrightarrow>
      parseCursor c =
        Some \<lparr>c_type = hd (split_on CHR '':'' c),
              c_id = join '':'' (butlast (tl (split_on CHR '':'' c))),
              c_timestamp = Some ms\<rparr>)"
proof -
  have 1: "listDecisionEventsHandler co db types (Some c) l =
        listDecisionEventsHandler co db types None l" if "parseCursor c = None"
    using handler_depends_on_requestCursor [of "Some c" None] that
    by (simp add: requestCursor_unparsable requestCursor_None)
  have 2: "\<exists>r. listDecisionEventsHandler co db types (Some c) l = Status200 r"
    if "parseCursor c = None"
    using 1 [OF that] handler_without_cursor [of co db types l] by simp
  have 3: "length (split_on CHR '':'' c) < 3 \<or> \<not> numericSegment (last (split_on CHR '':'' c))"
    if "parseCursor c = None"
    using that numericSegment_parses [of "last (split_on CHR '':'' c)"]
    unfolding parseCursor_None_iff by blast
  have 4: "parseCursor c =
        Some \<lparr>c_type = hd (split_on CHR '':'' c),
              c_id = join '':'' (butlast (tl (split_on CHR '':'' c))),
              c_timestamp = Some ms\<rparr>"
    if "3 \<le> length (split_on CHR '':'' c)" "parseInt (last (split_on CHR '':'' c)) = Some ms"
      "\<bar>ms\<bar> \<le> 8640000000000000"
    using parseCursor_Some [OF that(1,2)] that(3) by (simp add: new_Date_def)
  show ?thesis
    using parseCursor_None_iff [of c] 1 2 3 4 by blast
qed

theorem parseCursor_fallback_witness:
  "parseCursor ''garbage'' = None \<and>
   length (split_on CHR '':'' ''garbage'') < 3 \<and>
   listDecisionEventsHandler example_collation example_db None (Some ''garbage'') None =
     listDecisionEventsHandler example_collation example_db None None None \<and>
   3 \<le> length (split_on CHR '':'' ''plan_created:d:2:30'') \<and>
   parseInt (last (split_on CHR '':'' ''plan_created:d:2:30'')) = Some 30 \<and>
   \<bar>30 :: int\<bar> \<le> 8640000000000000 \<and>
   parseCursor ''plan_created:d:2:30'' =
     Some \<lparr>c_type = ''plan_created'', c_id = ''d:2'', c_timestamp = Some 30\<rparr>"
  using parseCursor_fallback [of "''garbage''" example_collation example_db None None 0]
    parseCursor_fallback [of "''plan_created:d:2:30''" example_collation example_db None None 30]
    parseCursor_examples
  by simp

text \<open>
  The claim as the specification words it fails for a last segment that is not a number
  but starts with one: \<open>20abc\<close> is read as 20, the cursor \<open>plan_approved:a1:20abc\<close> parses,
  and the response is the second page of the example store, not the first.
\<close>

theorem parseCursor_lenient_counterexample:
  "\<not> numericSegment ''20abc'' \<and>
   parseCursor ''plan_approved:a1:20abc'' =
     Some \<lparr>c_type = ''plan_approved'', c_id = ''a1'', c_timestamp = Some 20\<rparr> \<and>
   page_of (listDecisionEventsHandler example_collation example_db None
              (Some ''plan_approved:a1:20abc'') (Some ''2'')) =
     Some ([''plan_created:d:2:30'', ''plan_rejected:a2:40''], Some ''plan_rejected:a2:40'') \<and>
   page_of (listDecisionEventsHandler example_collation example_db None None (Some ''2'')) =
     Some ([''plan_created:d1:10'', ''plan_approved:a1:20''], Some ''plan_approved:a1:20'')"
  by code_simp

section \<open>Basic facts of the approval handler\<close>

lemma normalizeApprovalSignal_abs_le: "\<bar>normalizeApprovalSignal ap adj\<bar> \<le> 1"
  by (cases adj) (simp_all add: normalizeApprovalSignal_def)

lemma approvalConfidence_range:
  "\<bar>sg\<bar> \<le> 1 \<Longrightarrow> 0 \<le> approvalConfidence sg found role \<and> approvalConfidence sg found role \<le> 1"
  by (simp add: approvalConfidence_def Let_def)

lemma loadSourceDecision_found:
  "(loadSourceDecision db did \<noteq> None) =
     (truthy did \<and> (\<exists>d \<in> set (decisions db). Some (d_id d) = did))"
proof -
  have e: "(filter P xs = []) = (\<not> (\<exists>x \<in> set xs. P x))" for P and xs :: "DecisionRecord list"
    by (simp add: filter_empty_conv)
  have "(loadSourceDecision db did \<noteq> None) =
     (truthy did \<and> filter (\<lambda>d. Some (d_id d) = did) (decisions db) \<noteq> [])"
    by (simp add: loadSourceDecision_def split: list.splits)
  then show ?thesis unfolding e by simp
qed

lemma approval_handler_201:
  assumes "createApprovalLearningHandler rt uuid now body db = (db', Status201 r)"
  shows "createApprovalLearningSchema body"
    and "r_id r = uuid"
    and "r_normalized_signal r = normalizeApprovalSignal (approved body) (confidence_adjustment body)"
    and "r_confidence r =
          approvalConfidence (normalizeApprovalSignal (approved body) (confidence_adjustment body))
            (loadSourceDecision db (decision_id body) \<noteq> None) (reviewer_role body)"
  using assms by (auto simp: createApprovalLearningHandler_def Let_def split: if_splits)

lemma approval_handler_accepts:
  "createApprovalLearningSchema body \<Longrightarrow>
   \<exists>db' r. createApprovalLearningHandler rt uuid now body db = (db', Status201 r)"
  by (simp add: createApprovalLearningHandler_def Let_def)

lemma example_review_valid: "createApprovalLearningSchema example_review"
  by (simp add: createApprovalLearningSchema_def example_review_def)

lemma approval_handler_store:
  assumes "createApprovalLearningHandler rt uuid now body db = (db', Status201 r)"
  shows "r_id r = uuid"
    and "decisions db' = decisions db"
    and "r_inputs_hash r \<in> set (map le_inputs_hash (learning_events db)) \<Longrightarrow> db' = db"
    and "r_inputs_hash r \<notin> set (map le_inputs_hash (learning_events db)) \<Longrightarrow>
         \<exists>row. learning_events db' = learning_events db @ [row] \<and>
               le_id row = uuid \<and> le_inputs_hash row = r_inputs_hash r \<and>
               le_confidence row = r_confidence r"
    and "r_idempotent r"
  using assms
  by (auto simp: createApprovalLearningHandler_def emitLearningDecisionEvent_def
      insert_on_conflict_do_nothing_def insert_learning_event_def Let_def split: if_splits)

lemma approval_handler_hash:
  assumes "createApprovalLearningHandler rt uuid now body db = (db', Status201 r)"
  shows "r_inputs_hash r =
      computeInputsHash_approval rt
        [(''decision_id'', JStr (or_else (decision_id body) ''none'')),
         (''approved'', JBool (approved body)),
         (''confidence_adjustment'',
            JNum (case confidence_adjustment body of None \<Rightarrow> 0 | Some x \<Rightarrow> x)),
         (''reviewer_role'', JStr (or_else (reviewer_role body) ''unknown'')),
         (''review_scope'', JStr (or_else (review_scope body) ''general'')),
         (''artifact_type'', JStr (or_else (artifact_type body) ''unknown'')),
         (''timestamp'', JStr (or_else (timestamp body) now))]"
  using assms
  by (auto simp: createApprovalLearningHandler_def Let_def split: if_splits)

lemma example_review_same_hash:
  assumes "createApprovalLearningHandler rt u1 t1 example_review db = (db1, Status201 r1)"
    and "createApprovalLearningHandler rt u2 t2 example_review db' = (db2, Status201 r2)"
  shows "r_inputs_hash r1 = r_inputs_hash r2"
  unfolding approval_handler_hash [OF assms(1)] approval_handler_hash [OF assms(2)]
  by (simp add: example_review_def or_else_def)

section \<open>Properties of the inputs fingerprint\<close>

text \<open>
  What both fingerprints do guarantee: two objects with the same properties, listed in
  another order at the top level, have the same digest.
\<close>

lemma reordered_object:
  assumes "distinct (map fst a)" and "mset a = mset b"
  shows "sort (Object_keys a) = sort (Object_keys b)"
    and "map_of (map (\<lambda>kv. (fst kv, g (snd kv))) a) = map_of (map (\<lambda>kv. (fst kv, g (snd kv))) b)"
    and "map_of a = map_of b"
proof -
  have m: "mset (map fst a) = mset (map fst b)"
    using assms(2) by (metis mset_map)
  have db: "distinct (map fst b)"
    using assms(1) mset_eq_imp_distinct_iff [OF m] by simp
  have s: "set a = set b"
    using assms(2) by (rule mset_eq_setD)
  show "sort (Object_keys a) = sort (Object_keys b)"
    unfolding Object_keys_def
    by (rule properties_for_sort) (simp_all add: assms(2))
  show "map_of a = map_of b"
    using assms(1) db s by (simp add: map_of_inject_set)
  have "distinct (map fst (map (\<lambda>kv. (fst kv, g (snd kv))) a))"
       "distinct (map fst (map (\<lambda>kv. (fst kv, g (snd kv))) b))"
    using assms(1) db by (simp_all add: comp_def)
  moreover have "set (map (\<lambda>kv. (fst kv, g (snd kv))) a) = set (map (\<lambda>kv. (fst kv, g (snd kv))) b)"
    using s by simp
  ultimately show "map_of (map (\<lambda>kv. (fst kv, g (snd kv))) a) =
      map_of (map (\<lambda>kv. (fst kv, g (snd kv))) b)"
    by (simp only: map_of_inject_set)
qed

lemma computeInputsHash_key_order:
  assumes "distinct (map fst a)" and "mset a = mset b"
  shows "computeInputsHash rt a = computeInputsHash rt b"
    and "computeInputsHash_approval rt a = computeInputsHash_approval rt b"
proof -
  note r = reordered_object [OF assms]
  show "computeInputsHash rt a = computeInputsHash rt b"
    unfolding computeInputsHash_def JSON_stringify_def
    by (simp add: r(1) r(2) Let_def)
  show "computeInputsHash_approval rt a = computeInputsHash_approval rt b"
    unfolding computeInputsHash_approval_def
    by (simp add: r(1) r(3))
qed

lemma nested_texts:
  "JSON_stringify rt (JObj nested_one) (Some (sort (Object_keys nested_one))) =
     [CHR ''{'', CHR 0x22, CHR ''a'', CHR 0x22, CHR '':'', CHR ''{'', CHR ''}'', CHR ''}'']"
  "JSON_stringify rt (JObj nested_two) (Some (sort (Object_keys nested_two))) =
     [CHR ''{'', CHR 0x22, CHR ''a'', CHR 0x22, CHR '':'', CHR ''{'', CHR ''}'', CHR ''}'']"
  by (simp_all add: JSON_stringify_def Object_keys_def nested_one_def nested_two_def
      QuoteJSONString_def quoteChar_def)

lemma approval_copy_xy:
  "computeInputsHash_approval rt nested_xy = sha256_hex rt (JSON_stringify rt (JObj nested_xy) None)"
  "computeInputsHash_approval rt nested_yx = sha256_hex rt (JSON_stringify rt (JObj nested_yx) None)"
  by (simp_all add: computeInputsHash_approval_def Object_keys_def nested_xy_def nested_yx_def
      OrdinaryOwnPropertyKeys_def isArrayIndex_def isDigit_def)

lemma nested_order_texts:
  "JSON_stringify rt (JObj nested_xy) None \<noteq> JSON_stringify rt (JObj nested_yx) None"
  by (simp add: JSON_stringify_def nested_xy_def nested_yx_def
      QuoteJSONString_def quoteChar_def)

text \<open>
  C4, at the inputs where it fails. The fingerprint of the feedback handler passes the
  sorted top-level keys as the replacer array of \<open>JSON.stringify\<close>, which keeps, at
  every depth, only properties with those names: the objects \<open>{a: {b: 1}}\<close> and
  \<open>{a: {b: 2}}\<close> both print as \<open>{"a":{}}\<close> and have the same digest, whatever the
  digest function. The fingerprint of the approval handler sorts the top-level keys
  only: \<open>{a: {x: "1", y: "2"}}\<close> and \<open>{a: {y: "2", x: "1"}}\<close>, equal up to the order
  of the nested properties, are hashed from two different texts.
\<close>

theorem computeInputsHash_nested:
  "nested_one \<noteq> nested_two \<and>
   computeInputsHash rt nested_one = computeInputsHash rt nested_two \<and>
   computeInputsHash rt nested_one =
     sha256_hex rt [CHR ''{'', CHR 0x22, CHR ''a'', CHR 0x22, CHR '':'', CHR ''{'', CHR ''}'', CHR ''}''] \<and>
   computeInputsHash_approval rt nested_xy =
     sha256_hex rt (JSON_stringify rt (JObj nested_xy) None) \<and>
   computeInputsHash_approval rt nested_yx =
     sha256_hex rt (JSON_stringify rt (JObj nested_yx) None) \<and>
   JSON_stringify rt (JObj nested_xy) None \<noteq> JSON_stringify rt (JObj nested_yx) None"
proof -
  have "nested_one \<noteq> nested_two"
    by (simp add: nested_one_def nested_two_def)
  moreover have "computeInputsHash rt nested_one =
     sha256_hex rt [CHR ''{'', CHR 0x22, CHR ''a'', CHR 0x22, CHR '':'', CHR ''{'', CHR ''}'', CHR ''}'']"
    by (simp add: computeInputsHash_def nested_texts(1))
  moreover have "computeInputsHash rt nested_two =
     sha256_hex rt [CHR ''{'', CHR 0x22, CHR ''a'', CHR 0x22, CHR '':'', CHR ''{'', CHR ''}'', CHR ''}'']"
    by (simp add: computeInputsHash_def nested_texts(2))
  ultimately show ?thesis
    using approval_copy_xy [of rt] nested_order_texts [of rt] by simp
qed

section \<open>Properties of the learning event store\<close>

lemma insert_learning_event_distinct:
  "distinct (map le_inputs_hash rows) \<Longrightarrow> insert_learning_event row rows = Some rows' \<Longrightarrow>
   distinct (map le_inputs_hash rows')"
  by (auto simp: insert_learning_event_def split: if_splits)

lemma approval_handler_unique:
  assumes "distinct (map le_inputs_hash (learning_events db))"
  shows "distinct (map le_inputs_hash (learning_events (fst (createApprovalLearningHandler rt uuid now body db))))"
  using assms
  by (auto simp: createApprovalLearningHandler_def emitLearningDecisionEvent_def
      insert_on_conflict_do_nothing_def insert_learning_event_def Let_def)

lemma feedback_handler_unique:
  assumes "distinct (map le_inputs_hash (learning_events db))"
  shows "distinct (map le_inputs_hash (learning_events (fst (createFeedbackAssimilationHandler rt uuid now body db))))"
  using assms
  by (auto simp: createFeedbackAssimilationHandler_def emitLearningEvent_def
      insert_learning_event_def Let_def split: list.splits option.splits if_splits)

text \<open>
  C2, at the input where it fails. The store never holds two rows with one
  fingerprint (the two lemmas above), but the fingerprint of an approval covers
  \<open>timestamp || new Date().toISOString()\<close>: a body without a timestamp is hashed with
  the clock of the call. Two accepted submissions of one body on an empty store whose
  fingerprints differ leave two rows, one per submission.
\<close>

theorem approval_resubmission_two_rows:
  assumes "createApprovalLearningHandler rt u1 t1 body db0 = (db1, Status201 r1)"
    and "createApprovalLearningHandler rt u2 t2 body db1 = (db2, Status201 r2)"
    and "learning_events db0 = []"
    and "r_inputs_hash r1 \<noteq> r_inputs_hash r2"
  shows "length (learning_events db2) = 2 \<and>
         map le_id (learning_events db2) = [u1, u2] \<and>
         map le_inputs_hash (learning_events db2) = [r_inputs_hash r1, r_inputs_hash r2]"
proof -
  obtain row1 where 1: "learning_events db1 = [row1]" "le_id row1 = u1"
      "le_inputs_hash row1 = r_inputs_hash r1"
    using approval_handler_store(4) [OF assms(1)] assms(3) by auto
  have "r_inputs_hash r2 \<notin> set (map le_inputs_hash (learning_events db1))"
    using 1 assms(4) by simp
  then obtain row2 where 2: "learning_events db2 = learning_events db1 @ [row2]"
      "le_id row2 = u2" "le_inputs_hash row2 = r_inputs_hash r2"
    using approval_handler_store(4) [OF assms(2)] by blast
  show ?thesis using 1 2 by simp
qed

lemma example_bare_valid: "createApprovalLearningSchema example_bare"
  by (simp add: createApprovalLearningSchema_def example_bare_def)

lemma example_bare_hashes:
  "computeInputsHash_approval example_platform
        [(''decision_id'', JStr ''none''),
         (''approved'', JBool True),
         (''confidence_adjustment'', JNum 0),
         (''reviewer_role'', JStr ''unknown''),
         (''review_scope'', JStr ''general''),
         (''artifact_type'', JStr ''unknown''),
         (''timestamp'', JStr ''2024-01-01T00:00:10.000Z'')] \<noteq>
   computeInputsHash_approval example_platform
        [(''decision_id'', JStr ''none''),
         (''approved'', JBool True),
         (''confidence_adjustment'', JNum 0),
         (''reviewer_role'', JStr ''unknown''),
         (''review_scope'', JStr ''general''),
         (''artifact_type'', JStr ''unknown''),
         (''timestamp'', JStr ''2024-01-01T00:00:20.000Z'')]"
  by code_simp

theorem approval_resubmission_two_rows_witness:
  "status_code (snd example_bare_first) = 201 \<and> status_code (snd example_bare_second) = 201 \<and>
   length (learning_events (fst example_bare_second)) = 2 \<and>
   map le_id (learning_events (fst example_bare_second)) = [''uuid-1'', ''uuid-2'']"
proof -
  obtain db1 r1 where h1: "example_bare_first = (db1, Status201 r1)"
    unfolding example_bare_first_def
    using approval_handler_accepts [OF example_bare_valid] by blast
  obtain db2 r2 where h2: "example_bare_second = (db2, Status201 r2)"
    unfolding example_bare_second_def
    using approval_handler_accepts [OF example_bare_valid] by blast
  have g1: "createApprovalLearningHandler example_platform ''uuid-1'' ''2024-01-01T00:00:10.000Z''
       example_bare example_db = (db1, Status201 r1)"
    using h1 by (simp add: example_bare_first_def)
  have g2: "createApprovalLearningHandler example_platform ''uuid-2'' ''2024-01-01T00:00:20.000Z''
       example_bare db1 = (db2, Status201 r2)"
    using h2 unfolding example_bare_second_def h1 fst_conv .
  have e: "learning_events example_db = []"
    by (simp add: example_db_def)
  have n: "r_inputs_hash r1 \<noteq> r_inputs_hash r2"
    unfolding approval_handler_hash [OF g1] approval_handler_hash [OF g2]
    using example_bare_hashes by (simp add: example_bare_def or_else_def)
  show ?thesis
    unfolding h1 h2 fst_conv snd_conv
    using approval_resubmission_two_rows [OF g1 g2 e n]
    by (simp add: status_code_def)
qed

section \<open>Properties of the approval confidence\<close>

lemma approval_confidence_formula:
  assumes "createApprovalLearningHandler rt uuid now body db = (db', Status201 r)"
  shows "r_confidence r =
           (let s = \<bar>normalizeApprovalSignal (approved body) (confidence_adjustment body)\<bar>;
                c1 = (if \<exists>d \<in> set (decisions db). Some (d_id d) = decision_id body
                      then min 1 (s + 0.1) else s);
                c2 = (if reviewer_role body \<noteq> None \<and> reviewer_role body \<noteq> Some [] \<and>
                         reviewer_role body \<noteq> Some ''unknown''
                      then min 1 (c1 + 0.05) else c1)
            in c2)"
    and "0 \<le> r_confidence r \<and> r_confidence r \<le> 1"
proof -
  have ok: "createApprovalLearningSchema body"
    using assms by (rule approval_handler_201(1))
  have tr: "truthy (decision_id body) = (decision_id body \<noteq> None)"
    using ok by (auto simp: createApprovalLearningSchema_def truthy_def split: option.splits)
  have found: "(loadSourceDecision db (decision_id body) \<noteq> None) =
      (\<exists>d \<in> set (decisions db). Some (d_id d) = decision_id body)"
    unfolding loadSourceDecision_found tr by (metis option.distinct(1))
  have role: "(truthy (reviewer_role body) \<and> reviewer_role body \<noteq> Some ''unknown'') =
      (reviewer_role body \<noteq> None \<and> reviewer_role body \<noteq> Some [] \<and>
                         reviewer_role body \<noteq> Some ''unknown'')"
    by (auto simp: truthy_def split: option.splits)
  have c: "r_confidence r =
          approvalConfidence (normalizeApprovalSignal (approved body) (confidence_adjustment body))
            (loadSourceDecision db (decision_id body) \<noteq> None) (reviewer_role body)"
    using assms by (rule approval_handler_201(4))
  show "r_confidence r =
           (let s = \<bar>normalizeApprovalSignal (approved body) (confidence_adjustment body)\<bar>;
                c1 = (if \<exists>d \<in> set (decisions db). Some (d_id d) = decision_id body
                      then min 1 (s + 0.1) else s);
                c2 = (if reviewer_role body \<noteq> None \<and> reviewer_role body \<noteq> Some [] \<and>
                         reviewer_role body \<noteq> Some ''unknown''
                      then min 1 (c1 + 0.05) else c1)
            in c2)"
    unfolding c approvalConfidence_def found role by (simp only: Let_def)
  show "0 \<le> r_confidence r \<and> r_confidence r \<le> 1"
    unfolding c using approvalConfidence_range [OF normalizeApprovalSignal_abs_le] by blast
qed

lemma approval_confidence_stored:
  assumes "createApprovalLearningHandler rt uuid now body db = (db', Status201 r)"
  shows "if r_inputs_hash r \<in> set (map le_inputs_hash (learning_events db))
         then db' = db
         else (\<exists>row. learning_events db' = learning_events db @ [row] \<and>
                     le_id row = r_id r \<and> le_inputs_hash row = r_inputs_hash r \<and>
                     le_confidence row = r_confidence r)"
  using approval_handler_store(3,4) [OF assms] approval_handler_store(1) [OF assms]
  by (cases "r_inputs_hash r \<in> set (map le_inputs_hash (learning_events db))") simp_all

text \<open>
  C7, as the code has it. For an approval-learning request that is accepted (a 201), the
  confidence of the response is the absolute value of the normalised signal, plus 0.10
  capped at 1 when a decision row with the requested identifier exists, plus 0.05
  capped at 1 when the reviewer role is given, non-empty and not the literal
  \<open>unknown\<close>; it lies in \<open>[0, 1]\<close>. A request whose fingerprint is not yet stored adds
  one row to the store, under the identifier and the fingerprint of the response and
  with that same confidence. A request whose fingerprint is already stored leaves the
  store as it is: the stored row keeps the confidence of the request that wrote it.
\<close>

theorem approval_confidence_spec:
  assumes "createApprovalLearningHandler rt uuid now body db = (db', Status201 r)"
  shows "r_confidence r =
           (let s = \<bar>normalizeApprovalSignal (approved body) (confidence_adjustment body)\<bar>;
                c1 = (if \<exists>d \<in> set (decisions db). Some (d_id d) = decision_id body
                      then min 1 (s + 0.1) else s);
                c2 = (if reviewer_role body \<noteq> None \<and> reviewer_role body \<noteq> Some [] \<and>
                         reviewer_role body \<noteq> Some ''unknown''
                      then min 1 (c1 + 0.05) else c1)
            in c2) \<and>
         0 \<le> r_confidence r \<and> r_confidence r \<le> 1 \<and>
         (if r_inputs_hash r \<in> set (map le_inputs_hash (learning_events db))
          then db' = db
          else (\<exists>row. learning_events db' = learning_events db @ [row] \<and>
                      le_id row = r_id r \<and> le_inputs_hash row = r_inputs_hash r \<and>
                      le_confidence row = r_confidence r))"
  using approval_confidence_formula [OF assms] approval_confidence_stored [OF assms]
  by blast

theorem approval_confidence_spec_witness:
  "\<exists>db' r. createApprovalLearningHandler example_platform ''uuid-1'' ''2024-01-01T00:00:00.000Z''
              example_review example_db = (db', Status201 r) \<and>
           r_confidence r = 0.65 \<and>
           map le_confidence (learning_events db') = [0.65] \<and>
           map le_id (learning_events db') = [''uuid-1'']"
proof -
  obtain db' r where h: "createApprovalLearningHandler example_platform ''uuid-1''
      ''2024-01-01T00:00:00.000Z'' example_review example_db = (db', Status201 r)"
    using approval_handler_accepts [OF example_review_valid] by blast
  have f: "\<exists>d \<in> set (decisions example_db). Some (d_id d) = decision_id example_review"
    by (simp add: example_db_def example_decision_def example_review_def)
  have e: "learning_events example_db = []"
    by (simp add: example_db_def)
  note t = approval_confidence_spec [OF h]
  have c: "r_confidence r = 0.65"
    using t f by (simp add: example_review_def normalizeApprovalSignal_def)
  have i: "r_id r = ''uuid-1''"
    using approval_handler_store(1) [OF h] .
  have m: "map le_confidence (learning_events db') = [0.65] \<and>
        map le_id (learning_events db') = [''uuid-1'']"
    using t c i unfolding e by auto
  show ?thesis
    by (rule exI [of _ db'], rule exI [of _ r]) (simp add: h c m)
qed

text \<open>
  The claim as the specification words it, the stored confidence of every request being
  the one computed from it, fails for a repeated request. The example review is
  submitted before decision \<open>d1\<close> exists and again after: the first response and the
  stored row carry \<open>0.5 + 0.05\<close>, the second response carries \<open>0.5 + 0.1 + 0.05\<close> under the
  same fingerprint, and the store keeps the row of the first.
\<close>

theorem approval_confidence_stale_counterexample:
  "status_code (snd example_early) = 201 \<and> status_code (snd example_late) = 201 \<and>
   map_option r_inputs_hash (response_body (snd example_early)) =
     map_option r_inputs_hash (response_body (snd example_late)) \<and>
   map_option r_confidence (response_body (snd example_early)) = Some 0.55 \<and>
   map_option r_confidence (response_body (snd example_late)) = Some 0.65 \<and>
   map le_confidence (learning_events (fst example_late)) = [0.55]"
proof -
  obtain db1 r1 where h1: "example_early = (db1, Status201 r1)"
    unfolding example_early_def
    using approval_handler_accepts [OF example_review_valid] by blast
  obtain db2 r2 where h2: "example_late = (db2, Status201 r2)"
    unfolding example_late_def
    using approval_handler_accepts [OF example_review_valid] by blast
  have g1: "createApprovalLearningHandler example_platform ''uuid-1'' ''2024-01-01T00:00:10.000Z''
       example_review example_no_decisions = (db1, Status201 r1)"
    using h1 unfolding example_early_def .
  have g2: "createApprovalLearningHandler example_platform ''uuid-2'' ''2024-01-01T00:00:20.000Z''
       example_review (db1\<lparr>decisions := decisions example_db\<rparr>) = (db2, Status201 r2)"
    using h2 unfolding example_late_def h1 fst_conv .
  have e: "r_inputs_hash r1 = r_inputs_hash r2"
    using example_review_same_hash [OF g1 g2] .
  have c1: "r_confidence r1 = 0.55"
    using approval_confidence_formula(1) [OF g1]
    by (simp add: example_review_def example_no_decisions_def normalizeApprovalSignal_def)
  have c2: "r_confidence r2 = 0.65"
    using approval_confidence_formula(1) [OF g2]
    by (simp add: example_review_def example_db_def example_decision_def
        normalizeApprovalSignal_def)
  have "r_inputs_hash r1 \<notin> set (map le_inputs_hash (learning_events example_no_decisions))"
    by (simp add: example_no_decisions_def)
  then obtain row where s1: "learning_events db1 = [row]" "le_inputs_hash row = r_inputs_hash r1"
      "le_confidence row = r_confidence r1"
    using approval_handler_store(4) [OF g1] by (auto simp: example_no_decisions_def)
  have "r_inputs_hash r2 \<in>
      set (map le_inputs_hash (learning_events (db1\<lparr>decisions := decisions example_db\<rparr>)))"
    using s1 e by simp
  then have "db2 = db1\<lparr>decisions := decisions example_db\<rparr>"
    using approval_handler_store(3) [OF g2] by simp
  then have s2: "map le_confidence (learning_events db2) = [0.55]"
    using s1 c1 by simp
  show ?thesis
    unfolding h1 h2 fst_conv snd_conv
    using e c1 c2 s2 by (simp add: status_code_def response_body_def)
qed

section \<open>Properties of repeated submissions\<close>

text \<open>
  The feedback handler, the sibling of the approval handler: a submission that was
  answered 201 and is submitted again is answered 201 with the identifier of the stored
  row, and the store is unchanged.
\<close>

lemma feedbackLearningEvent_key:
  "fe_inputs_hash (feedbackLearningEvent rt t1 body) = fe_inputs_hash (feedbackLearningEvent rt t2 body)"
  "fe_decision_type (feedbackLearningEvent rt t1 body) = ''feedback_assimilation''"
  by (simp_all add: feedbackLearningEvent_def Let_def)

lemma emitLearningEvent_again:
  assumes "emitLearningEvent rt u1 t1 ev db = Some (db1, i1)"
    and "fe_inputs_hash ev' = fe_inputs_hash ev"
    and "fe_decision_type ev' = fe_decision_type ev"
  shows "emitLearningEvent rt u2 t2 ev' db1 = Some (db1, i1)"
proof (cases "filter (\<lambda>r. le_inputs_hash r = fe_inputs_hash ev \<and>
                        le_decision_type r = fe_decision_type ev) (learning_events db)")
  case Nil
  then show ?thesis
    using assms
    by (auto simp: emitLearningEvent_def insert_learning_event_def Let_def split: if_splits)
next
  case (Cons x xs)
  then show ?thesis
    using assms by (auto simp: emitLearningEvent_def)
qed

lemma feedback_handler_201:
  assumes "createFeedbackAssimilationHandler rt u t body db = (db', Status201 r)"
  shows "emitLearningEvent rt u t (feedbackLearningEvent rt t body) db = Some (db', fr_id r)"
    and "createFeedbackAssimilationSchema body"
  using assms
  by (auto simp: createFeedbackAssimilationHandler_def Let_def split: if_splits option.splits)

lemma feedback_handler_emit:
  assumes "createFeedbackAssimilationSchema body"
    and "emitLearningEvent rt u t (feedbackLearningEvent rt t body) db = Some (db', i)"
  shows "\<exists>r. createFeedbackAssimilationHandler rt u t body db = (db', Status201 r) \<and> fr_id r = i"
  using assms by (simp add: createFeedbackAssimilationHandler_def Let_def)

lemma feedback_resubmission:
  assumes "createFeedbackAssimilationHandler rt u1 t1 body db = (db1, Status201 r1)"
  shows "\<exists>r2. createFeedbackAssimilationHandler rt u2 t2 body db1 = (db1, Status201 r2) \<and>
              fr_id r2 = fr_id r1"
proof -
  have "emitLearningEvent rt u2 t2 (feedbackLearningEvent rt t2 body) db1 = Some (db1, fr_id r1)"
    using emitLearningEvent_again [OF feedback_handler_201(1) [OF assms]]
    by (simp add: feedbackLearningEvent_key)
  then show ?thesis
    using feedback_handler_emit [OF feedback_handler_201(2) [OF assms]] by blast
qed

lemma feedback_handler_fresh:
  assumes "createFeedbackAssimilationSchema body" and "learning_events db = []"
  shows "\<exists>db' r. createFeedbackAssimilationHandler rt u t body db = (db', Status201 r) \<and> fr_id r = u"
  using assms
  by (simp add: createFeedbackAssimilationHandler_def emitLearningEvent_def
      insert_learning_event_def Let_def)

lemma example_feedback_body_valid: "createFeedbackAssimilationSchema example_feedback_body"
  by (simp add: createFeedbackAssimilationSchema_def example_feedback_body_def
      example_feedback_def)

lemma feedback_resubmission_example:
  "\<exists>db1 r1 r2.
      createFeedbackAssimilationHandler example_platform ''uuid-1'' ''2024-01-01T00:00:10.000Z''
        example_feedback_body example_db = (db1, Status201 r1) \<and>
      createFeedbackAssimilationHandler example_platform ''uuid-2'' ''2024-01-01T00:00:20.000Z''
        example_feedback_body db1 = (db1, Status201 r2) \<and>
      fr_id r1 = ''uuid-1'' \<and> fr_id r2 = ''uuid-1''"
proof -
  have "learning_events example_db = []"
    by (simp add: example_db_def)
  then obtain db1 r1 where f: "createFeedbackAssimilationHandler example_platform ''uuid-1''
      ''2024-01-01T00:00:10.000Z'' example_feedback_body example_db = (db1, Status201 r1)"
      "fr_id r1 = ''uuid-1''"
    using feedback_handler_fresh [OF example_feedback_body_valid] by blast
  then show ?thesis
    using feedback_resubmission [OF f(1)] by metis
qed

lemma example_submissions:
  "\<exists>db1 r1 db2 r2. example_first = (db1, Status201 r1) \<and> example_second = (db2, Status201 r2) \<and>
     createApprovalLearningHandler example_platform ''uuid-1'' ''2024-01-01T00:00:10.000Z''
       example_review example_db = (db1, Status201 r1) \<and>
     createApprovalLearningHandler example_platform ''uuid-2'' ''2024-01-01T00:00:20.000Z''
       example_review db1 = (db2, Status201 r2)"
proof -
  obtain db1 r1 where h1: "example_first = (db1, Status201 r1)"
    unfolding example_first_def
    using approval_handler_accepts [OF example_review_valid] by blast
  obtain db2 r2 where h2: "example_second = (db2, Status201 r2)"
    unfolding example_second_def
    using approval_handler_accepts [OF example_review_valid] by blast
  have g1: "createApprovalLearningHandler example_platform ''uuid-1'' ''2024-01-01T00:00:10.000Z''
       example_review example_db = (db1, Status201 r1)"
    using h1 unfolding example_first_def .
  have g2: "createApprovalLearningHandler example_platform ''uuid-2'' ''2024-01-01T00:00:20.000Z''
       example_review db1 = (db2, Status201 r2)"
    using h2 unfolding example_second_def h1 fst_conv .
  show ?thesis using h1 h2 g1 g2 by blast
qed

text \<open>
  C3, at the input where it fails. The approval handler draws a fresh identifier before
  the conflict-ignoring insert and returns it whatever the insert did. When an accepted
  submission is repeated with the same fingerprint, the store is unchanged and still
  answers \<open>idempotent: true\<close>, but the second response carries the identifier drawn for
  the second call, which is the identifier of no stored row; the first response carries
  the one drawn for the first call.
\<close>

theorem approval_resubmission_fresh_identifier:
  assumes "createApprovalLearningHandler rt u1 t1 body db = (db1, Status201 r1)"
    and "createApprovalLearningHandler rt u2 t2 body db1 = (db2, Status201 r2)"
    and "r_inputs_hash r1 = r_inputs_hash r2"
    and "u2 \<notin> set (map le_id (learning_events db1))"
  shows "db2 = db1 \<and> r_id r1 = u1 \<and> r_id r2 = u2 \<and> r_idempotent r2 \<and>
         r_id r2 \<notin> set (map le_id (learning_events db2))"
proof -
  have "r_inputs_hash r1 \<in> set (map le_inputs_hash (learning_events db1))"
  proof (cases "r_inputs_hash r1 \<in> set (map le_inputs_hash (learning_events db))")
    case True
    then show ?thesis using approval_handler_store(3) [OF assms(1)] by simp
  next
    case False
    then show ?thesis using approval_handler_store(4) [OF assms(1)] by auto
  qed
  then have "db2 = db1"
    using approval_handler_store(3) [OF assms(2)] assms(3) by simp
  then show ?thesis
    using approval_handler_store(1) [OF assms(1)] approval_handler_store(1) [OF assms(2)]
      approval_handler_store(5) [OF assms(2)] assms(4) by simp
qed

theorem approval_resubmission_fresh_identifier_witness:
  "status_code (snd example_first) = 201 \<and> status_code (snd example_second) = 201 \<and>
   map_option r_inputs_hash (response_body (snd example_first)) =
     map_option r_inputs_hash (response_body (snd example_second)) \<and>
   map_option r_id (response_body (snd example_first)) = Some ''uuid-1'' \<and>
   map_option r_id (response_body (snd example_second)) = Some ''uuid-2'' \<and>
   fst example_second = fst example_first \<and>
   map le_id (learning_events (fst example_second)) = [''uuid-1'']"
proof -
  obtain db1 r1 db2 r2 where h: "example_first = (db1, Status201 r1)"
      "example_second = (db2, Status201 r2)"
      "createApprovalLearningHandler example_platform ''uuid-1'' ''2024-01-01T00:00:10.000Z''
       example_review example_db = (db1, Status201 r1)"
      "createApprovalLearningHandler example_platform ''uuid-2'' ''2024-01-01T00:00:20.000Z''
       example_review db1 = (db2, Status201 r2)"
    using example_submissions by blast
  have e: "r_inputs_hash r1 = r_inputs_hash r2"
    using example_review_same_hash [OF h(3) h(4)] .
  have "r_inputs_hash r1 \<notin> set (map le_inputs_hash (learning_events example_db))"
    by (simp add: example_db_def)
  then obtain row where s: "learning_events db1 = learning_events example_db @ [row]"
      "le_id row = ''uuid-1''"
    using approval_handler_store(4) [OF h(3)] by blast
  then have ids: "map le_id (learning_events db1) = [''uuid-1'']"
    by (simp add: example_db_def)
  then have f: "''uuid-2'' \<notin> set (map le_id (learning_events db1))"
    by simp
  show ?thesis
    unfolding h(1) h(2) fst_conv snd_conv
    using approval_resubmission_fresh_identifier [OF h(3) h(4) e f] e ids
    by (simp add: status_code_def response_body_def)
qed

section \<open>Sorting, merging and truncating\<close>

lemma take_insort_key:
  "take n (insort_key f x zs) = take n (insort_key f x (take n zs))"
proof (induction zs arbitrary: n)
  case Nil
  then show ?case by simp
next
  case (Cons z zs)
  show ?case
  proof (cases n)
    case 0
    then show ?thesis by simp
  next
    case (Suc m)
    show ?thesis
    proof (cases "f x \<le> f z")
      case True
      then show ?thesis by (cases m) (simp_all add: Suc)
    next
      case False
      then show ?thesis using Cons.IH [of m] by (simp add: Suc)
    qed
  qed
qed

lemma take_foldr_insort_key:
  "n \<le> b \<Longrightarrow>
   take n (foldr (insort_key f) xs (take b ys)) = take n (foldr (insort_key f) xs ys)"
proof (induction xs)
  case Nil
  then show ?case by (simp add: min_def)
next
  case (Cons x xs)
  have "take n (insort_key f x (foldr (insort_key f) xs (take b ys))) =
        take n (insort_key f x (take n (foldr (insort_key f) xs (take b ys))))"
    by (rule take_insort_key)
  also have "\<dots> = take n (insort_key f x (take n (foldr (insort_key f) xs ys)))"
    using Cons by simp
  also have "\<dots> = take n (insort_key f x (foldr (insort_key f) xs ys))"
    by (rule take_insort_key [symmetric])
  finally show ?case by simp
qed

lemma sort_key_append:
  "sort_key f (xs @ ys) = foldr (insort_key f) xs (sort_key f ys)"
  by (simp add: sort_key_def)

lemma sort_key_take_sorted:
  "sort_key f (take b (sort_key f ys)) = take b (sort_key f ys)"
proof -
  have "sorted (map f (take b (sort_key f ys)))"
    unfolding take_map [symmetric] by (rule sorted_wrt_take) simp
  then show ?thesis by (rule sort_key_id_if_sorted)
qed

lemma take_sort_key_append_right:
  assumes "n \<le> b"
  shows "take n (sort_key f (xs @ take b (sort_key f ys))) = take n (sort_key f (xs @ ys))"
  unfolding sort_key_append sort_key_take_sorted
  using assms by (rule take_foldr_insort_key)

lemma sort_key_append_commute:
  assumes "inj_on f (set xs \<union> set ys)"
  shows "sort_key f (xs @ ys) = sort_key f (ys @ xs)"
proof (rule sort_key_inj_key_eq)
  show "mset (xs @ ys) = mset (sort_key f (ys @ xs))" by simp
  show "inj_on f (set (xs @ ys))" using assms by simp
  show "sorted (map f (sort_key f (ys @ xs)))" by simp
qed

lemma take_sort_key_merge:
  assumes "inj_on f (set xs \<union> set ys)" and "n \<le> a" and "n \<le> b"
  shows "take n (sort_key f (take a (sort_key f xs) @ take b (sort_key f ys))) =
         take n (sort_key f (xs @ ys))"
proof -
  have i: "inj_on f (set (take a (sort_key f xs)) \<union> set ys)"
    by (rule inj_on_subset [OF assms(1)]) (auto dest: in_set_takeD)
  have "take n (sort_key f (take a (sort_key f xs) @ take b (sort_key f ys))) =
        take n (sort_key f (take a (sort_key f xs) @ ys))"
    using assms(3) by (rule take_sort_key_append_right)
  also have "\<dots> = take n (sort_key f (ys @ take a (sort_key f xs)))"
    using i by (simp add: sort_key_append_commute)
  also have "\<dots> = take n (sort_key f (ys @ xs))"
    using assms(2) by (rule take_sort_key_append_right)
  also have "\<dots> = take n (sort_key f (xs @ ys))"
    using assms(1) by (simp add: sort_key_append_commute Un_commute)
  finally show ?thesis .
qed

lemma insort_key_pair:
  "f x \<notin> f ` set ys \<Longrightarrow> insort_key (\<lambda>x. (f x, g x)) x ys = insort_key f x ys"
  by (induction ys) (auto simp: less_eq_prod_def)

lemma sort_key_pair:
  "distinct (map f xs) \<Longrightarrow> sort_key (\<lambda>x. (f x, g x)) xs = sort_key f xs"
proof (induction xs)
  case Nil
  then show ?case by simp
next
  case (Cons x xs)
  then have "f x \<notin> f ` set (sort_key f xs)" by simp
  then show ?case using Cons by (simp add: insort_key_pair)
qed

lemma map_insort_key:
  "map g (insort_key (\<lambda>x. f (g x)) x xs) = insort_key f (g x) (map g xs)"
  by (induction xs) simp_all

lemma map_sort_key:
  "map g (sort_key (\<lambda>x. f (g x)) xs) = sort_key f (map g xs)"
  by (induction xs) (simp_all add: map_insort_key)

lemma insort_key_cong_order:
  "(\<And>y. y \<in> set ys \<Longrightarrow> (f x \<le> f y) = (g x \<le> g y)) \<Longrightarrow>
   insort_key f x ys = insort_key g x ys"
  by (induction ys) simp_all

lemma sort_key_cong_order:
  "(\<And>x y. x \<in> set xs \<Longrightarrow> y \<in> set xs \<Longrightarrow> (f x \<le> f y) = (g x \<le> g y)) \<Longrightarrow>
   sort_key f xs = sort_key g xs"
proof (induction xs)
  case Nil
  then show ?case by simp
next
  case (Cons x xs)
  have "sort_key f xs = sort_key g xs"
    by (rule Cons.IH) (simp add: Cons.prems)
  moreover have "insort_key f x (sort_key g xs) = insort_key g x (sort_key g xs)"
    by (rule insort_key_cong_order) (simp add: Cons.prems)
  ultimately show ?case by simp
qed

section \<open>Event identifiers parse back\<close>

lemma split_on_not_Nil: "split_on c s \<noteq> []"
  by (induction s) (simp_all add: Let_def)

lemma split_on_prefix:
  "c \<notin> set a \<Longrightarrow> split_on c (a @ c # rest) = a # split_on c rest"
  by (induction a) (auto simp: Let_def)

lemma split_on_suffix:
  "c \<notin> set d \<Longrightarrow> split_on c d = [d]"
  by (induction d) (auto simp: Let_def)

lemma split_on_last:
  "c \<notin> set d \<Longrightarrow> split_on c (m @ c # d) = split_on c m @ [d]"
proof (induction m)
  case Nil
  then show ?case by (simp add: split_on_suffix)
next
  case (Cons x m)
  then show ?case
    using split_on_not_Nil [of c m] by (cases "split_on c m") (simp_all add: Let_def)
qed

lemma join_split_on: "join [c] (split_on c s) = s"
proof (induction s)
  case Nil
  then show ?case by simp
next
  case (Cons x s)
  obtain p ps where r: "split_on c s = p # ps"
    using split_on_not_Nil [of c s] by (cases "split_on c s") auto
  show ?case
  proof (cases "x = c")
    case True
    then show ?thesis using Cons r by simp
  next
    case False
    then show ?thesis using Cons r by (cases ps) (simp_all add: Let_def)
  qed
qed

lemma digitChar_props:
  assumes "d < 10"
  shows "isDigit (digitChar d)" and "digitValue (digitChar d) = d"
    and "digitChar d \<noteq> CHR '':''" and "digitChar d \<noteq> CHR ''-''" and "digitChar d \<noteq> CHR ''+''"
    and "\<not> isStrWhiteSpaceChar (digitChar d)"
proof -
  have "d \<in> {0, 1, 2, 3, 4, 5, 6, 7, 8, 9}" using assms by auto
  then show "isDigit (digitChar d)" and "digitValue (digitChar d) = d"
    and "digitChar d \<noteq> CHR '':''" and "digitChar d \<noteq> CHR ''-''" and "digitChar d \<noteq> CHR ''+''"
    and "\<not> isStrWhiteSpaceChar (digitChar d)"
    by (auto simp: isDigit_def digitValue_def digitChar_def isStrWhiteSpaceChar_def)
qed

lemma show_nat_digits:
  "show_nat n \<noteq> [] \<and> set (show_nat n) \<subseteq> digitChar ` {0..<10}"
proof (induction n rule: show_nat.induct)
  case (1 n)
  show ?case
  proof (cases "n < 10")
    case True
    then show ?thesis by (subst show_nat.simps, subst show_nat.simps) auto
  next
    case False
    have "n mod 10 < 10" by simp
    then show ?thesis
      using 1 False by (subst show_nat.simps, subst (2) show_nat.simps) auto
  qed
qed

lemma show_nat_char:
  assumes "c \<in> set (show_nat n)"
  shows "isDigit c" and "c \<noteq> CHR '':''" and "c \<noteq> CHR ''-''" and "c \<noteq> CHR ''+''"
    and "\<not> isStrWhiteSpaceChar c"
proof -
  obtain d where "d < 10" "c = digitChar d"
    using assms show_nat_digits [of n] by auto
  then show "isDigit c" and "c \<noteq> CHR '':''" and "c \<noteq> CHR ''-''" and "c \<noteq> CHR ''+''"
    and "\<not> isStrWhiteSpaceChar c"
    using digitChar_props [of d] by simp_all
qed

lemma show_nat_value:
  "foldl (\<lambda>a c. 10 * a + digitValue c) 0 (show_nat n) = n"
proof (induction n rule: show_nat.induct)
  case (1 n)
  show ?case
  proof (cases "n < 10")
    case True
    then show ?thesis by (subst show_nat.simps) (simp add: digitChar_props)
  next
    case False
    have "n mod 10 < 10" by simp
    then show ?thesis
      using 1 False by (subst show_nat.simps) (simp add: digitChar_props)
  qed
qed

lemma show_nat_all_digits: "takeWhile isDigit (show_nat n) = show_nat n"
  by (auto simp: show_nat_char)

lemma parseInt_show_nat: "parseInt (show_nat n) = Some (int n)"
proof -
  obtain c cs where s: "show_nat n = c # cs"
    using show_nat_digits [of n] by (cases "show_nat n") auto
  have "c \<in> set (show_nat n)" using s by simp
  then have h: "\<not> isStrWhiteSpaceChar c" "c \<noteq> CHR ''-''" "c \<noteq> CHR ''+''"
    using show_nat_char by blast+
  have t: "takeWhile isDigit (c # cs) = c # cs"
    using show_nat_all_digits [of n] s by simp
  have v: "foldl (\<lambda>a c. 10 * a + digitValue c) 0 (c # cs) = n"
    using show_nat_value [of n] s by simp
  show ?thesis
    unfolding s using h v
    by (simp add: parseInt_def Let_def t del: foldl_Cons takeWhile.simps)
qed

lemma parseInt_show_int: "parseInt (show_int n) = Some n"
proof (cases "n < 0")
  case False
  then show ?thesis by (simp add: show_int_def parseInt_show_nat)
next
  case True
  have ws: "\<not> isStrWhiteSpaceChar CHR ''-''"
    by (simp add: isStrWhiteSpaceChar_def)
  have t: "takeWhile isDigit (show_nat (nat (- n))) = show_nat (nat (- n))"
    by (rule show_nat_all_digits)
  have v: "foldl (\<lambda>a c. 10 * a + digitValue c) 0 (show_nat (nat (- n))) = nat (- n)"
    by (rule show_nat_value)
  have ne: "show_nat (nat (- n)) \<noteq> []"
    using show_nat_digits by blast
  show ?thesis
    using True ws ne by (simp add: show_int_def parseInt_def Let_def t v)
qed

lemma show_int_no_colon: "CHR '':'' \<notin> set (show_int n)"
  using show_nat_char(2) by (auto simp: show_int_def)

lemma parseCursor_buildEventId:
  assumes "CHR '':'' \<notin> set tag"
  shows "parseCursor (buildEventId tag row_id ts) =
           Some \<lparr>c_type = tag, c_id = row_id, c_timestamp = new_Date ts\<rparr>"
proof -
  have p: "split_on CHR '':'' (buildEventId tag row_id ts) =
      tag # split_on CHR '':'' row_id @ [show_int ts]"
    using assms by (simp add: buildEventId_def split_on_prefix split_on_last show_int_no_colon)
  obtain q qs where r: "split_on CHR '':'' row_id = q # qs"
    using split_on_not_Nil [of "CHR '':''" row_id] by (cases "split_on CHR '':'' row_id") auto
  have j: "join '':'' (split_on CHR '':'' row_id) = row_id"
    by (rule join_split_on)
  show ?thesis
    unfolding parseCursor_def p using j
    by (simp add: r parseInt_show_int butlast_append)
qed

lemma type_tag_no_colon: "CHR '':'' \<notin> set (type_tag t)"
  by (cases t) simp_all

lemma buildEventId_not_Nil: "buildEventId tag row_id ts \<noteq> []"
  by (simp add: buildEventId_def)

section \<open>Cursors of served events\<close>

lemma decisionEvent_simps:
  "ev_timestamp (decisionEvent r) = toDate (d_created_at r)"
  "ev_id (decisionEvent r) =
     buildEventId ''plan_created'' (d_id r) (toDate (d_created_at r))"
  by (simp_all add: decisionEvent_def)

lemma approvalEvent_simps:
  "ev_timestamp (approvalEvent p) = toDate (a_created_at (fst p))"
  "ev_id (approvalEvent p) =
     buildEventId (type_tag (mapApprovalToEventType (a_approved (fst p)))) (a_id (fst p))
       (toDate (a_created_at (fst p)))"
  by (simp_all add: approvalEvent_def Let_def)

lemma parseCursor_decisionEvent:
  "parseCursor (ev_id (decisionEvent r)) =
     Some \<lparr>c_type = ''plan_created'', c_id = d_id r,
           c_timestamp = new_Date (toDate (d_created_at r))\<rparr>"
  unfolding decisionEvent_simps by (rule parseCursor_buildEventId) simp

lemma parseCursor_approvalEvent:
  "parseCursor (ev_id (approvalEvent p)) =
     Some \<lparr>c_type = type_tag (mapApprovalToEventType (a_approved (fst p))),
           c_id = a_id (fst p), c_timestamp = new_Date (toDate (a_created_at (fst p)))\<rparr>"
  unfolding approvalEvent_simps by (rule parseCursor_buildEventId) (rule type_tag_no_colon)

lemma approvalsJoin_fst: "p \<in> set (approvalsJoin db) \<Longrightarrow> fst p \<in> set (approvals db)"
  by (auto simp: approvalsJoin_def)

lemma row_timestamps:
  "r \<in> set (decisions db) \<Longrightarrow> d_created_at r \<in> set (rowTimestamps db)"
  "p \<in> set (approvalsJoin db) \<Longrightarrow> a_created_at (fst p) \<in> set (rowTimestamps db)"
  using approvalsJoin_fst [of p db] by (simp_all add: rowTimestamps_def)

lemma allEvents_row:
  assumes "e \<in> set (allEvents db)"
  shows "\<exists>t. t \<in> set (rowTimestamps db) \<and> ev_timestamp e = toDate t"
proof -
  consider r where "r \<in> set (decisions db)" "e = decisionEvent r"
    | p where "p \<in> set (approvalsJoin db)" "e = approvalEvent p"
    using assms by (auto simp: allEvents_def)
  then show ?thesis
  proof cases
    case 1
    then show ?thesis
      using row_timestamps(1) [of r db] by (auto simp: decisionEvent_simps)
  next
    case 2
    then show ?thesis
      using row_timestamps(2) [of p db] by (auto simp: approvalEvent_simps)
  qed
qed

lemma parseCursor_allEvents:
  assumes "e \<in> set (allEvents db)"
  shows "\<exists>c. parseCursor (ev_id e) = Some c \<and> c_timestamp c = new_Date (ev_timestamp e)"
  using assms parseCursor_decisionEvent parseCursor_approvalEvent
  by (auto simp: allEvents_def decisionEvent_simps approvalEvent_simps)

lemma ev_id_not_Nil:
  assumes "e \<in> set (allEvents db)"
  shows "ev_id e \<noteq> []"
  using assms
  by (auto simp: allEvents_def decisionEvent_simps approvalEvent_simps buildEventId_not_Nil)

lemma requestCursor_event:
  assumes "e \<in> set (allEvents db)"
  shows "requestCursor (Some (ev_id e)) = parseCursor (ev_id e)"
  using ev_id_not_Nil [OF assms] by (simp add: requestCursor_def truthy_def or_else_def)

text \<open>
  The cursor of a served event holds a valid \<open>Date\<close> when the rows are in the range of
  one, and the two queries then get the event's milliseconds and its row identifier.
\<close>

lemma cursorParams_event:
  assumes e: "e \<in> set (allEvents db)" and g: "list_all inDateRange (rowTimestamps db)"
  shows "\<exists>c. parseCursor (ev_id e) = Some c \<and> c_timestamp c = Some (ev_timestamp e) \<and>
           cursorParams (requestCursor (Some (ev_id e))) =
             Some (Some (ev_timestamp e, c_id c))"
proof -
  obtain c where c: "parseCursor (ev_id e) = Some c" "c_timestamp c = new_Date (ev_timestamp e)"
    using parseCursor_allEvents [OF e] by blast
  obtain t where t: "t \<in> set (rowTimestamps db)" "ev_timestamp e = toDate t"
    using allEvents_row [OF e] by blast
  have "inDateRange t"
    using g t(1) by (simp add: list_all_iff)
  then have v: "c_timestamp c = Some (ev_timestamp e)"
    unfolding c(2) t(2) by (simp add: inDateRange_def new_Date_def)
  have "cursorParams (requestCursor (Some (ev_id e))) = Some (Some (ev_timestamp e, c_id c))"
    unfolding requestCursor_event [OF e] c(1) by (simp add: cursorParams_def v)
  with c(1) v show ?thesis by blast
qed

lemma wholeMilliseconds_toDate: "wholeMilliseconds t \<Longrightarrow> t = toDate t * 1000"
  using div_mult_mod_eq [of t 1000] by (simp add: wholeMilliseconds_def toDate_def)

text \<open>
  A cursor against a row whose timestamp is a whole number of milliseconds: the
  comparison of the query is the comparison of the two \<open>Date\<close>s, as long as no other
  event shares the cursor's milliseconds.
\<close>

lemma afterCursor_key:
  assumes "parseCursor (ev_id e) = Some c"
    and "parseCursor (ev_id x) = Some \<lparr>c_type = tg, c_id = i, c_timestamp = t\<rparr>"
    and "ev_timestamp x = toDate created" and "wholeMilliseconds created"
    and "ev_timestamp x = ev_timestamp e \<Longrightarrow> x = e"
  shows "afterCursor key (Some (ev_timestamp e, c_id c)) created i =
           (ev_timestamp e < toDate created)"
proof (cases "ev_timestamp x = ev_timestamp e")
  case True
  then have "x = e" by (rule assms(5))
  then have "c = \<lparr>c_type = tg, c_id = i, c_timestamp = t\<rparr>"
    using assms(1,2) by simp
  then have "c_id c = i" by simp
  moreover have "ev_timestamp e * 1000 = created"
    using wholeMilliseconds_toDate [OF assms(4)] True assms(3) by simp
  ultimately show ?thesis
    using True assms(3) by (simp add: afterCursor_def)
next
  case False
  define m where "m = toDate created"
  have lp: "((a, k1) < (b, k2)) = (a < b \<or> a = b \<and> k1 < k2)"
    for a b :: int and k1 k2 :: string
    by (auto simp: less_prod_def)
  have cm: "created = m * 1000"
    unfolding m_def using assms(4) by (rule wholeMilliseconds_toDate)
  have "ev_timestamp e \<noteq> m"
    using False assms(3) by (simp add: m_def)
  then have "afterCursor key (Some (ev_timestamp e, c_id c)) (m * 1000) i = (ev_timestamp e < m)"
    by (auto simp: afterCursor_def lp)
  then show ?thesis
    unfolding m_def [symmetric] cm [symmetric] .
qed

lemma afterCursor_rows:
  assumes d: "distinct (map ev_timestamp (allEvents db))" and e: "e \<in> set (allEvents db)"
    and w: "list_all wholeMilliseconds (rowTimestamps db)"
    and c: "parseCursor (ev_id e) = Some c"
  shows "r \<in> set (decisions db) \<Longrightarrow>
           afterCursor key (Some (ev_timestamp e, c_id c)) (d_created_at r) (d_id r) =
             (ev_timestamp e < toDate (d_created_at r))"
    and "p \<in> set (approvalsJoin db) \<Longrightarrow>
           afterCursor key (Some (ev_timestamp e, c_id c)) (a_created_at (fst p)) (a_id (fst p)) =
             (ev_timestamp e < toDate (a_created_at (fst p)))"
proof -
  have inj: "inj_on ev_timestamp (set (allEvents db))"
    using d by (simp add: distinct_map)
  show "afterCursor key (Some (ev_timestamp e, c_id c)) (d_created_at r) (d_id r) =
             (ev_timestamp e < toDate (d_created_at r))" if r: "r \<in> set (decisions db)"
  proof -
    have m: "decisionEvent r \<in> set (allEvents db)"
      using r by (simp add: allEvents_def)
    have wr: "wholeMilliseconds (d_created_at r)"
      using w row_timestamps(1) [OF r] by (simp add: list_all_iff)
    show ?thesis
      by (rule afterCursor_key [OF c parseCursor_decisionEvent decisionEvent_simps(1) wr])
        (rule inj_onD [OF inj _ m e])
  qed
  show "afterCursor key (Some (ev_timestamp e, c_id c)) (a_created_at (fst p)) (a_id (fst p)) =
             (ev_timestamp e < toDate (a_created_at (fst p)))" if p: "p \<in> set (approvalsJoin db)"
  proof -
    have m: "approvalEvent p \<in> set (allEvents db)"
      using p by (simp add: allEvents_def)
    have wp: "wholeMilliseconds (a_created_at (fst p))"
      using w row_timestamps(2) [OF p] by (simp add: list_all_iff)
    show ?thesis
      by (rule afterCursor_key [OF c parseCursor_approvalEvent approvalEvent_simps(1) wp])
        (rule inj_onD [OF inj _ m e])
  qed
qed

section \<open>One page of the merged stream\<close>

lemma parseEventTypes_None: "parseEventTypes None = None"
  by (simp add: parseEventTypes_def truthy_def)

lemma distinct_map_comp:
  assumes "distinct (map (\<lambda>x. f (g x)) xs)"
  shows "distinct (map g xs)"
proof -
  have "distinct (map f (map g xs))"
    using assms by (simp add: comp_def)
  then show ?thesis
    using distinct_map [of f "map g xs"] by blast
qed

lemma distinct_allEvents_parts:
  assumes "distinct (map ev_timestamp (allEvents db))"
  shows "distinct (map d_created_at (decisions db))"
    and "distinct (map (\<lambda>p. a_created_at (fst p)) (approvalsJoin db))"
    and "inj_on ev_timestamp (set (map decisionEvent (decisions db)) \<union>
           set (map approvalEvent (approvalsJoin db)))"
proof -
  have "distinct (map ev_timestamp (map decisionEvent (decisions db)))"
    using assms by (simp add: allEvents_def)
  then have "distinct (map (\<lambda>r. toDate (d_created_at r)) (decisions db))"
    by (simp add: comp_def decisionEvent_simps)
  then show "distinct (map d_created_at (decisions db))"
    by (rule distinct_map_comp)
  have "distinct (map ev_timestamp (map approvalEvent (approvalsJoin db)))"
    using assms by (simp add: allEvents_def)
  then have "distinct (map (\<lambda>p. toDate (a_created_at (fst p))) (approvalsJoin db))"
    by (simp add: comp_def approvalEvent_simps)
  then show "distinct (map (\<lambda>p. a_created_at (fst p)) (approvalsJoin db))"
    by (rule distinct_map_comp)
  have "inj_on ev_timestamp (set (allEvents db))"
    using assms by (simp only: distinct_map)
  then show "inj_on ev_timestamp (set (map decisionEvent (decisions db)) \<union>
           set (map approvalEvent (approvalsJoin db)))"
    by (simp only: allEvents_def set_append)
qed

text \<open>
  Rows whose timestamps are whole milliseconds and pairwise distinct: the order of the
  query, by stored timestamp and then identifier, is the order of their \<open>Date\<close>s.
\<close>

lemma wholeMilliseconds_le:
  assumes "wholeMilliseconds s" and "wholeMilliseconds t"
  shows "(s \<le> t) = (toDate s \<le> toDate t)"
proof -
  have "s = toDate s * 1000" "t = toDate t * 1000"
    using assms by (simp_all add: wholeMilliseconds_toDate [symmetric])
  then have "(s \<le> t) = (toDate s * 1000 \<le> toDate t * 1000)"
    by simp
  then show ?thesis by simp
qed

lemma sort_key_rows:
  assumes d: "distinct (map f xs)"
    and w: "\<And>x. x \<in> set xs \<Longrightarrow> wholeMilliseconds (f x)"
  shows "sort_key (\<lambda>x. (f x, g x)) xs = sort_key (\<lambda>x. toDate (f x)) xs"
proof -
  have "sort_key (\<lambda>x. (f x, g x)) xs = sort_key f xs"
    using d by (rule sort_key_pair)
  also have "\<dots> = sort_key (\<lambda>x. toDate (f x)) xs"
    by (rule sort_key_cong_order) (simp add: w wholeMilliseconds_le)
  finally show ?thesis .
qed

lemma decisions_page:
  assumes d: "distinct (map d_created_at (decisions db))"
    and w: "list_all wholeMilliseconds (rowTimestamps db)"
    and cp: "cursorParams cur = Some params"
    and a: "\<And>r. r \<in> set (decisions db) \<Longrightarrow>
              afterCursor (decisions_id_key co) params (d_created_at r) (d_id r) =
                P (toDate (d_created_at r))"
  shows "map_option (map decisionEvent) (decisionsQuery co db cur n) =
           Some (take n (sort_key ev_timestamp
             (filter (\<lambda>x. P (ev_timestamp x)) (map decisionEvent (decisions db)))))"
proof -
  let ?F = "filter (\<lambda>r. P (toDate (d_created_at r))) (decisions db)"
  have f: "filter (\<lambda>r. afterCursor (decisions_id_key co) params (d_created_at r) (d_id r))
             (decisions db) = ?F"
    by (rule filter_cong) (simp_all add: a)
  have dd: "distinct (map d_created_at ?F)"
    using d by (rule distinct_map_filter)
  have ww: "wholeMilliseconds (d_created_at r)" if "r \<in> set ?F" for r
    using w row_timestamps(1) [of r db] that by (simp add: list_all_iff)
  have s: "sort_key (\<lambda>r. (d_created_at r, decisions_id_key co (d_id r))) ?F =
           sort_key (\<lambda>r. toDate (d_created_at r)) ?F"
    using dd ww by (rule sort_key_rows)
  have m: "map decisionEvent (sort_key (\<lambda>r. ev_timestamp (decisionEvent r)) xs) =
           sort_key ev_timestamp (map decisionEvent xs)" for xs
    by (rule map_sort_key)
  have fm: "filter (\<lambda>x. P (ev_timestamp x)) (map decisionEvent (decisions db)) =
            map decisionEvent ?F"
    by (simp add: filter_map comp_def decisionEvent_simps)
  have q: "decisionsQuery co db cur n =
             Some (take n (sort_key (\<lambda>r. toDate (d_created_at r)) ?F))"
    by (simp add: decisionsQuery_def cp f s)
  show ?thesis
    unfolding q fm using m [of ?F]
    by (simp add: decisionEvent_simps take_map [symmetric])
qed

lemma approvals_page:
  assumes d: "distinct (map (\<lambda>p. a_created_at (fst p)) (approvalsJoin db))"
    and w: "list_all wholeMilliseconds (rowTimestamps db)"
    and cp: "cursorParams cur = Some params"
    and a: "\<And>p. p \<in> set (approvalsJoin db) \<Longrightarrow>
              afterCursor (approvals_id_text_key co) params (a_created_at (fst p)) (a_id (fst p)) =
                P (toDate (a_created_at (fst p)))"
  shows "map_option (map approvalEvent) (approvalsQuery co db [True, False] cur n) =
           Some (take n (sort_key ev_timestamp
             (filter (\<lambda>x. P (ev_timestamp x)) (map approvalEvent (approvalsJoin db)))))"
proof -
  let ?F = "filter (\<lambda>p. P (toDate (a_created_at (fst p)))) (approvalsJoin db)"
  have f: "filter (\<lambda>r. afterCursor (approvals_id_text_key co) params
                           (a_created_at (fst r)) (a_id (fst r))) (approvalsJoin db) = ?F"
    by (rule filter_cong) (simp_all add: a)
  have dd: "distinct (map (\<lambda>p. a_created_at (fst p)) ?F)"
    using d by (rule distinct_map_filter)
  have ww: "wholeMilliseconds (a_created_at (fst p))" if "p \<in> set ?F" for p
    using w row_timestamps(2) [of p db] that by (simp add: list_all_iff)
  have s: "sort_key (\<lambda>r. (a_created_at (fst r), approvals_id_key co (a_id (fst r)))) ?F =
           sort_key (\<lambda>p. toDate (a_created_at (fst p))) ?F"
    using dd ww by (rule sort_key_rows)
  have m: "map approvalEvent (sort_key (\<lambda>r. ev_timestamp (approvalEvent r)) xs) =
           sort_key ev_timestamp (map approvalEvent xs)" for xs
    by (rule map_sort_key)
  have fm: "filter (\<lambda>x. P (ev_timestamp x)) (map approvalEvent (approvalsJoin db)) =
            map approvalEvent ?F"
    by (simp add: filter_map comp_def approvalEvent_simps)
  have q: "approvalsQuery co db [True, False] cur n =
             Some (take n (sort_key (\<lambda>p. toDate (a_created_at (fst p))) ?F))"
    by (simp add: approvalsQuery_def cp f s)
  show ?thesis
    unfolding q fm using m [of ?F]
    by (simp add: approvalEvent_simps take_map [symmetric])
qed

lemma merged_page:
  assumes "distinct (map ev_timestamp (D @ A))"
  shows "take n (sort_key (\<lambda>e. (ev_timestamp e, k (ev_id e)))
           (take n (sort_key ev_timestamp (filter Q D)) @
            take n (sort_key ev_timestamp (filter Q A)))) =
         take n (filter Q (sort_key ev_timestamp (D @ A)))"
proof -
  let ?X = "take n (sort_key ev_timestamp (filter Q D))"
  let ?Y = "take n (sort_key ev_timestamp (filter Q A))"
  have "distinct (D @ A) \<and> inj_on ev_timestamp (set (D @ A))"
    using assms by (simp only: distinct_map)
  then have inj: "inj_on ev_timestamp (set (D @ A))" and dis: "distinct (D @ A)"
    by blast+
  have sub: "set ?X \<subseteq> set D" "set ?Y \<subseteq> set A"
    by (auto dest: in_set_takeD)
  have "distinct ?X" "distinct ?Y"
    using dis by (simp_all add: distinct_take)
  moreover have "set ?X \<inter> set ?Y = {}"
    using sub dis by auto
  ultimately have dxy: "distinct (?X @ ?Y)" by simp
  have "inj_on ev_timestamp (set (?X @ ?Y))"
    by (rule inj_on_subset [OF inj]) (use sub in auto)
  then have "distinct (map ev_timestamp (?X @ ?Y))"
    unfolding distinct_map using dxy by blast
  then have "sort_key (\<lambda>e. (ev_timestamp e, k (ev_id e))) (?X @ ?Y) =
      sort_key ev_timestamp (?X @ ?Y)"
    by (rule sort_key_pair)
  moreover have "take n (sort_key ev_timestamp (?X @ ?Y)) =
      take n (sort_key ev_timestamp (filter Q D @ filter Q A))"
  proof (rule take_sort_key_merge)
    show "inj_on ev_timestamp (set (filter Q D) \<union> set (filter Q A))"
      by (rule inj_on_subset [OF inj]) auto
  qed simp_all
  ultimately show ?thesis
    by (simp add: filter_sort)
qed

text \<open>
  A request without a type filter, over rows with whole-millisecond timestamps whose
  events have pairwise distinct timestamps, when the cursor's test on a row is a test
  \<open>P\<close> of the row's \<open>Date\<close>: the page is the first \<open>limit\<close> events of the sorted stream
  that pass \<open>P\<close>, and the cursor returned is the identifier of the last of them.
\<close>

lemma handler_page:
  assumes d: "distinct (map ev_timestamp (allEvents db))"
    and w: "list_all wholeMilliseconds (rowTimestamps db)"
    and cp: "cursorParams (requestCursor after) = Some params"
    and a1: "\<And>r. r \<in> set (decisions db) \<Longrightarrow>
              afterCursor (decisions_id_key co) params (d_created_at r) (d_id r) =
                P (toDate (d_created_at r))"
    and a2: "\<And>p. p \<in> set (approvalsJoin db) \<Longrightarrow>
              afterCursor (approvals_id_text_key co) params (a_created_at (fst p)) (a_id (fst p)) =
                P (toDate (a_created_at (fst p)))"
    and pg: "pg = take (parseLimit l)
               (filter (\<lambda>x. P (ev_timestamp x)) (sort_key ev_timestamp (allEvents db)))"
  shows "listDecisionEventsHandler co db None after l =
           Status200 \<lparr>events = pg,
                      next_cursor = (if pg = [] then None else Some (ev_id (last pg)))\<rparr>"
proof -
  note parts = distinct_allEvents_parts [OF d]
  have "map_option (map decisionEvent) (decisionsQuery co db (requestCursor after) (parseLimit l)) =
           Some (take (parseLimit l) (sort_key ev_timestamp
             (filter (\<lambda>x. P (ev_timestamp x)) (map decisionEvent (decisions db)))))"
    using parts(1) w cp a1 by (rule decisions_page)
  then obtain drows where dq:
      "decisionsQuery co db (requestCursor after) (parseLimit l) = Some drows"
    and de: "map decisionEvent drows = take (parseLimit l) (sort_key ev_timestamp
             (filter (\<lambda>x. P (ev_timestamp x)) (map decisionEvent (decisions db))))"
    unfolding map_option_eq_Some by blast
  have "map_option (map approvalEvent)
           (approvalsQuery co db [True, False] (requestCursor after) (parseLimit l)) =
           Some (take (parseLimit l) (sort_key ev_timestamp
             (filter (\<lambda>x. P (ev_timestamp x)) (map approvalEvent (approvalsJoin db)))))"
    using parts(2) w cp a2 by (rule approvals_page)
  then obtain arows where aq:
      "approvalsQuery co db [True, False] (requestCursor after) (parseLimit l) = Some arows"
    and ae: "map approvalEvent arows = take (parseLimit l) (sort_key ev_timestamp
             (filter (\<lambda>x. P (ev_timestamp x)) (map approvalEvent (approvalsJoin db))))"
    unfolding map_option_eq_Some by blast
  have mp: "take (parseLimit l)
           (sort_key (\<lambda>e. (ev_timestamp e, localeCompare_key co (ev_id e)))
             (map decisionEvent drows @ map approvalEvent arows)) = pg"
    unfolding de ae pg allEvents_def
    by (rule merged_page) (use d in \<open>simp add: allEvents_def\<close>)
  have h: "listDecisionEventsHandler co db None after l =
      (let t = take (parseLimit l)
           (sort_key (\<lambda>e. (ev_timestamp e, localeCompare_key co (ev_id e)))
             (map decisionEvent drows @ map approvalEvent arows))
       in Status200 \<lparr>events = t,
            next_cursor = (if 0 < length t then Some (ev_id (last t)) else None)\<rparr>)"
    unfolding listDecisionEventsHandler_def parseEventTypes_None
    by (simp add: includesType_def approvalFilters_def Let_def dq aq)
  show ?thesis
    unfolding h mp by (simp add: Let_def)
qed

section \<open>Pagination over five rows\<close>

lemma first_page:
  assumes "distinct (map ev_timestamp (allEvents db))"
    and "list_all wholeMilliseconds (rowTimestamps db)"
    and "pg = take (parseLimit l) (sort_key ev_timestamp (allEvents db))"
  shows "listDecisionEventsHandler co db None None l =
           Status200 \<lparr>events = pg,
                      next_cursor = (if pg = [] then None else Some (ev_id (last pg)))\<rparr>"
  by (rule handler_page [OF assms(1,2), where P = "\<lambda>t. True" and params = None])
    (simp_all add: requestCursor_None cursorParams_def afterCursor_def assms(3))

lemma next_page:
  assumes d: "distinct (map ev_timestamp (allEvents db))"
    and w: "list_all wholeMilliseconds (rowTimestamps db)"
    and g: "list_all inDateRange (rowTimestamps db)"
    and e: "e \<in> set (allEvents db)"
    and pg: "pg = take (parseLimit l)
           (filter (\<lambda>x. ev_timestamp e < ev_timestamp x) (sort_key ev_timestamp (allEvents db)))"
  shows "listDecisionEventsHandler co db None (Some (ev_id e)) l =
           Status200 \<lparr>events = pg,
                      next_cursor = (if pg = [] then None else Some (ev_id (last pg)))\<rparr>"
proof -
  obtain c where c: "parseCursor (ev_id e) = Some c"
    and cp: "cursorParams (requestCursor (Some (ev_id e))) = Some (Some (ev_timestamp e, c_id c))"
    using cursorParams_event [OF e g] by blast
  show ?thesis
  proof (rule handler_page [OF d w cp, where P = "\<lambda>t. ev_timestamp e < t"])
    show "afterCursor (decisions_id_key co) (Some (ev_timestamp e, c_id c))
            (d_created_at r) (d_id r) = (ev_timestamp e < toDate (d_created_at r))"
      if "r \<in> set (decisions db)" for r
      using d e w c that by (rule afterCursor_rows(1))
    show "afterCursor (approvals_id_text_key co) (Some (ev_timestamp e, c_id c))
            (a_created_at (fst p)) (a_id (fst p)) = (ev_timestamp e < toDate (a_created_at (fst p)))"
      if "p \<in> set (approvalsJoin db)" for p
      using d e w c that by (rule afterCursor_rows(2))
    show "pg = take (parseLimit l)
           (filter (\<lambda>x. ev_timestamp e < ev_timestamp x) (sort_key ev_timestamp (allEvents db)))"
      by (rule pg)
  qed
qed

lemma filter_unique_key:
  "distinct (map f xs) \<Longrightarrow> k \<in> f ` set xs \<Longrightarrow> \<exists>x. filter (\<lambda>y. f y = k) xs = [x]"
proof (induction xs)
  case Nil
  then show ?case by simp
next
  case (Cons a xs)
  show ?case
  proof (cases "f a = k")
    case True
    have "f a \<notin> f ` set xs"
      using Cons.prems(1) by simp
    then have "\<forall>y \<in> set xs. f y \<noteq> k"
      unfolding True [symmetric] by (metis imageI)
    then have "filter (\<lambda>y. f y = k) xs = []"
      by (simp add: filter_empty_conv)
    then show ?thesis using True by simp
  next
    case False
    then show ?thesis using Cons by auto
  qed
qed

lemma join_singletons:
  "(\<And>a. a \<in> set as \<Longrightarrow> \<exists>d. g a = [d]) \<Longrightarrow>
   map fst (concat (map (\<lambda>a. map (\<lambda>d. (a, d)) (g a)) as)) = as"
proof (induction as)
  case Nil
  then show ?case by simp
next
  case (Cons a as)
  obtain d where "g a = [d]" using Cons.prems [of a] by auto
  then show ?case using Cons by simp
qed

lemma approvalsJoin_rows:
  assumes "distinct (map d_id (decisions db))"
    and "set (map a_decision_id (approvals db)) \<subseteq> set (map d_id (decisions db))"
  shows "map fst (approvalsJoin db) = approvals db"
  unfolding approvalsJoin_def
proof (rule join_singletons)
  fix a assume "a \<in> set (approvals db)"
  then have "a_decision_id a \<in> d_id ` set (decisions db)"
    using assms(2) by auto
  then show "\<exists>d. filter (\<lambda>d. d_id d = a_decision_id a) (decisions db) = [d]"
    using assms(1) by (rule filter_unique_key [rotated])
qed

lemma allEvents_timestamps:
  assumes "distinct (map d_id (decisions db))"
    and "set (map a_decision_id (approvals db)) \<subseteq> set (map d_id (decisions db))"
  shows "map ev_timestamp (allEvents db) = map toDate (rowTimestamps db)"
proof -
  have "map (\<lambda>p. toDate (a_created_at (fst p))) (approvalsJoin db) =
        map (\<lambda>a. toDate (a_created_at a)) (map fst (approvalsJoin db))"
    by (simp add: comp_def)
  then show ?thesis
    unfolding approvalsJoin_rows [OF assms]
    by (simp add: allEvents_def rowTimestamps_def comp_def decisionEvent_simps
        approvalEvent_simps)
qed

lemma distinct_dates:
  assumes "distinct ts" and "list_all wholeMilliseconds ts"
  shows "distinct (map toDate ts)"
proof -
  have "inj_on toDate (set ts)"
  proof (rule inj_onI)
    fix s t assume a: "s \<in> set ts" "t \<in> set ts" "toDate s = toDate t"
    have ws: "wholeMilliseconds s" and wt: "wholeMilliseconds t"
      using assms(2) a(1,2) by (simp_all add: list_all_iff)
    have "s = toDate s * 1000"
      using ws by (rule wholeMilliseconds_toDate)
    moreover have "t = toDate t * 1000"
      using wt by (rule wholeMilliseconds_toDate)
    ultimately show "s = t"
      using a(3) by simp
  qed
  with assms(1) show ?thesis by (simp add: distinct_map)
qed

lemma parseLimit_two: "parseLimit (Some ''2'') = 2"
  by code_simp

lemma five_pages:
  assumes d: "distinct (map ev_timestamp (allEvents db))"
    and w: "list_all wholeMilliseconds (rowTimestamps db)"
    and g: "list_all inDateRange (rowTimestamps db)"
    and n: "length (allEvents db) = 5"
  shows "\<exists>e1 e2 e3 e4 e5.
     sort_key ev_timestamp (allEvents db) = [e1, e2, e3, e4, e5] \<and>
     ev_timestamp e1 < ev_timestamp e2 \<and> ev_timestamp e2 < ev_timestamp e3 \<and>
     ev_timestamp e3 < ev_timestamp e4 \<and> ev_timestamp e4 < ev_timestamp e5 \<and>
     listDecisionEventsHandler co db None None (Some ''2'') =
       Status200 \<lparr>events = [e1, e2], next_cursor = Some (ev_id e2)\<rparr> \<and>
     listDecisionEventsHandler co db None (Some (ev_id e2)) (Some ''2'') =
       Status200 \<lparr>events = [e3, e4], next_cursor = Some (ev_id e4)\<rparr> \<and>
     listDecisionEventsHandler co db None (Some (ev_id e4)) (Some ''2'') =
       Status200 \<lparr>events = [e5], next_cursor = Some (ev_id e5)\<rparr> \<and>
     listDecisionEventsHandler co db None (Some (ev_id e5)) (Some ''2'') =
       Status200 \<lparr>events = [], next_cursor = None\<rparr>"
proof -
  let ?S = "sort_key ev_timestamp (allEvents db)"
  have five: "\<exists>e1 e2 e3 e4 e5. xs = [e1, e2, e3, e4, e5]"
    if "length xs = 5" for xs :: "DecisionEvent list"
    using that by (auto simp: eval_nat_numeral length_Suc_conv)
  have "length ?S = 5" using n by simp
  then obtain e1 e2 e3 e4 e5 where S: "?S = [e1, e2, e3, e4, e5]"
    using five by blast
  have "sorted (map ev_timestamp ?S)" by simp
  moreover have "distinct (map ev_timestamp ?S)"
    using d by (simp add: distinct_map)
  ultimately have lt: "ev_timestamp e1 < ev_timestamp e2" "ev_timestamp e2 < ev_timestamp e3"
      "ev_timestamp e3 < ev_timestamp e4" "ev_timestamp e4 < ev_timestamp e5"
    unfolding S by auto
  have "set ?S = set (allEvents db)" by simp
  then have mem: "e2 \<in> set (allEvents db)" "e4 \<in> set (allEvents db)" "e5 \<in> set (allEvents db)"
    unfolding S by auto
  have p1: "listDecisionEventsHandler co db None None (Some ''2'') =
       Status200 \<lparr>events = [e1, e2], next_cursor = Some (ev_id e2)\<rparr>"
    using first_page [OF d w refl, of co "Some ''2''"] by (simp add: S parseLimit_two)
  have p2: "listDecisionEventsHandler co db None (Some (ev_id e2)) (Some ''2'') =
       Status200 \<lparr>events = [e3, e4], next_cursor = Some (ev_id e4)\<rparr>"
    using next_page [OF d w g mem(1) refl, of co "Some ''2''"] lt by (simp add: S parseLimit_two)
  have p3: "listDecisionEventsHandler co db None (Some (ev_id e4)) (Some ''2'') =
       Status200 \<lparr>events = [e5], next_cursor = Some (ev_id e5)\<rparr>"
    using next_page [OF d w g mem(2) refl, of co "Some ''2''"] lt by (simp add: S parseLimit_two)
  have p4: "listDecisionEventsHandler co db None (Some (ev_id e5)) (Some ''2'') =
       Status200 \<lparr>events = [], next_cursor = None\<rparr>"
    using next_page [OF d w g mem(3) refl, of co "Some ''2''"] lt by (simp add: S parseLimit_two)
  show ?thesis using S lt p1 p2 p3 p4 by blast
qed

text \<open>
  A row whose stored timestamp has a part below the millisecond is served again. The
  only row of \<open>example_fine_db\<close> was created 10.5 ms after the epoch; its event carries
  10 ms, the cursor built from it asks for rows after 10 ms, and the row, at 10.5 ms,
  is one of them: every call with the returned cursor returns the same event and the
  same cursor.
\<close>

lemma fine_timestamp_served_again:
  "page_of (listDecisionEventsHandler example_collation example_fine_db None None (Some ''2'')) =
     Some ([''plan_created:d1:10''], Some ''plan_created:d1:10'')"
  "page_of (listDecisionEventsHandler example_collation example_fine_db None
      (Some ''plan_created:d1:10'') (Some ''2'')) =
     Some ([''plan_created:d1:10''], Some ''plan_created:d1:10'')"
  by code_simp+

text \<open>
  C1, as the code has it. Take a store whose decisions have distinct identifiers, whose
  approvals each reference a decision, and whose five rows (decisions and approvals
  together) have pairwise distinct timestamps, each a whole number of milliseconds in
  the range of a \<open>Date\<close>. With a page size of 2 and no type filter, whatever the
  collations of the runtime and the database, consecutive calls that each pass the
  previous response's \<open>next_cursor\<close> return the five events exactly once, in strictly
  ascending order of timestamp: two, two and one. The cursor of a response is the
  identifier of the last event of its page, so the third call's \<open>next_cursor\<close> is the
  identifier of the fifth event, not null; the fourth call, with that cursor, returns
  no event and the null cursor. Without the condition on the timestamps the statement
  fails (\<open>fine_timestamp_served_again\<close>).
\<close>

theorem cursor_pagination:
  assumes "distinct (map d_id (decisions db))"
    and "set (map a_decision_id (approvals db)) \<subseteq> set (map d_id (decisions db))"
    and "distinct (rowTimestamps db)"
    and "list_all wholeMilliseconds (rowTimestamps db)"
    and "list_all inDateRange (rowTimestamps db)"
    and "length (decisions db) + length (approvals db) = 5"
  shows "\<exists>e1 e2 e3 e4 e5.
     mset [e1, e2, e3, e4, e5] = mset (allEvents db) \<and>
     ev_timestamp e1 < ev_timestamp e2 \<and> ev_timestamp e2 < ev_timestamp e3 \<and>
     ev_timestamp e3 < ev_timestamp e4 \<and> ev_timestamp e4 < ev_timestamp e5 \<and>
     listDecisionEventsHandler co db None None (Some ''2'') =
       Status200 \<lparr>events = [e1, e2], next_cursor = Some (ev_id e2)\<rparr> \<and>
     listDecisionEventsHandler co db None (Some (ev_id e2)) (Some ''2'') =
       Status200 \<lparr>events = [e3, e4], next_cursor = Some (ev_id e4)\<rparr> \<and>
     listDecisionEventsHandler co db None (Some (ev_id e4)) (Some ''2'') =
       Status200 \<lparr>events = [e5], next_cursor = Some (ev_id e5)\<rparr> \<and>
     listDecisionEventsHandler co db None (Some (ev_id e5)) (Some ''2'') =
       Status200 \<lparr>events = [], next_cursor = None\<rparr>"
proof -
  have ts: "map ev_timestamp (allEvents db) = map toDate (rowTimestamps db)"
    using assms(1,2) by (rule allEvents_timestamps)
  have d: "distinct (map ev_timestamp (allEvents db))"
    unfolding ts using assms(3,4) by (rule distinct_dates)
  have "length (map ev_timestamp (allEvents db)) = 5"
    unfolding ts using assms(6) by (simp add: rowTimestamps_def)
  then have n: "length (allEvents db) = 5" by simp
  obtain e1 e2 e3 e4 e5 where h:
     "sort_key ev_timestamp (allEvents db) = [e1, e2, e3, e4, e5]"
     "ev_timestamp e1 < ev_timestamp e2" "ev_timestamp e2 < ev_timestamp e3"
     "ev_timestamp e3 < ev_timestamp e4" "ev_timestamp e4 < ev_timestamp e5"
     "listDecisionEventsHandler co db None None (Some ''2'') =
       Status200 \<lparr>events = [e1, e2], next_cursor = Some (ev_id e2)\<rparr>"
     "listDecisionEventsHandler co db None (Some (ev_id e2)) (Some ''2'') =
       Status200 \<lparr>events = [e3, e4], next_cursor = Some (ev_id e4)\<rparr>"
     "listDecisionEventsHandler co db None (Some (ev_id e4)) (Some ''2'') =
       Status200 \<lparr>events = [e5], next_cursor = Some (ev_id e5)\<rparr>"
     "listDecisionEventsHandler co db None (Some (ev_id e5)) (Some ''2'') =
       Status200 \<lparr>events = [], next_cursor = None\<rparr>"
    using five_pages [OF d assms(4,5) n, of co] by blast
  have "mset (sort_key ev_timestamp (allEvents db)) = mset (allEvents db)" by simp
  then have "mset [e1, e2, e3, e4, e5] = mset (allEvents db)"
    unfolding h(1) .
  then show ?thesis using h(2-9) by blast
qed

lemma example_db_tables:
  "distinct (map d_id (decisions example_db))"
  "set (map a_decision_id (approvals example_db)) \<subseteq> set (map d_id (decisions example_db))"
  "distinct (rowTimestamps example_db)"
  "list_all wholeMilliseconds (rowTimestamps example_db)"
  "list_all inDateRange (rowTimestamps example_db)"
  "length (decisions example_db) + length (approvals example_db) = 5"
  by (simp_all add: example_db_def example_decision_def example_approval_def rowTimestamps_def
      wholeMilliseconds_def inDateRange_def toDate_def)

theorem cursor_pagination_witness:
  "distinct (map d_id (decisions example_db)) \<and>
   set (map a_decision_id (approvals example_db)) \<subseteq> set (map d_id (decisions example_db)) \<and>
   distinct (rowTimestamps example_db) \<and>
   list_all wholeMilliseconds (rowTimestamps example_db) \<and>
   list_all inDateRange (rowTimestamps example_db) \<and>
   length (decisions example_db) + length (approvals example_db) = 5 \<and>
   (\<exists>e1 e2 e3 e4 e5.
     mset [e1, e2, e3, e4, e5] = mset (allEvents example_db) \<and>
     ev_timestamp e1 < ev_timestamp e2 \<and> ev_timestamp e2 < ev_timestamp e3 \<and>
     ev_timestamp e3 < ev_timestamp e4 \<and> ev_timestamp e4 < ev_timestamp e5 \<and>
     listDecisionEventsHandler example_collation example_db None None (Some ''2'') =
       Status200 \<lparr>events = [e1, e2], next_cursor = Some (ev_id e2)\<rparr> \<and>
     listDecisionEventsHandler example_collation example_db None (Some (ev_id e2)) (Some ''2'') =
       Status200 \<lparr>events = [e3, e4], next_cursor = Some (ev_id e4)\<rparr> \<and>
     listDecisionEventsHandler example_collation example_db None (Some (ev_id e4)) (Some ''2'') =
       Status200 \<lparr>events = [e5], next_cursor = Some (ev_id e5)\<rparr> \<and>
     listDecisionEventsHandler example_collation example_db None (Some (ev_id e5)) (Some ''2'') =
       Status200 \<lparr>events = [], next_cursor = None\<rparr>)"
  using cursor_pagination [OF example_db_tables, of example_collation] example_db_tables
  by blast

theorem cursor_pagination_counterexample:
  "page_of (listDecisionEventsHandler example_collation example_db None None (Some ''2'')) =
     Some ([''plan_created:d1:10'', ''plan_approved:a1:20''], Some ''plan_approved:a1:20'') \<and>
   page_of (listDecisionEventsHandler example_collation example_db None
       (Some ''plan_approved:a1:20'') (Some ''2'')) =
     Some ([''plan_created:d:2:30'', ''plan_rejected:a2:40''], Some ''plan_rejected:a2:40'') \<and>
   page_of (listDecisionEventsHandler example_collation example_db None
       (Some ''plan_rejected:a2:40'') (Some ''2'')) =
     Some ([''plan_created:d3:50''], Some ''plan_created:d3:50'') \<and>
   Some ''plan_created:d3:50'' \<noteq> (None :: string option)"
  by code_simp

end
